theory Spec2Isabelle
  imports Main "HOL-Library.AList"
begin

section \<open>Data model\<close>

text \<open>
  The types of \<^verbatim>\<open>src/types/index.ts\<close> and the component state of the reading screen
  (\<^verbatim>\<open>ImageBookReaderScreen\<close>, the version with the extensive-reading policy).
  JavaScript numbers that count pages and seconds are integers here. Dates
  (\<^verbatim>\<open>startTime\<close>, \<^verbatim>\<open>startedAt\<close>, \<^verbatim>\<open>completedAt\<close>, \<^verbatim>\<open>updatedAt\<close>) and purely
  presentational state (image loading, toast and modal texts) are left out: no
  handler reads them to take a decision. A field that the TypeScript reads through
  \<^verbatim>\<open>as any\<close> and that a stored document may lack is an \<open>option\<close>.
\<close>

datatype category = Intensive | Extensive

record Book =
  bookId :: string
  title :: string
  gradeLevel :: int
  category :: category
  pagesLength :: int

record PageTimer =
  pageNumber :: int
  totalTime :: int
  exceedanceCount :: int
  timerCompleted :: bool
  recordedTotalSeconds :: "int option"
  isCapped :: "bool option"

record BookProgress =
  bpCurrentPage :: int
  totalPages :: int
  isCompleted :: bool
  isSubmitted :: bool
  pageTimers :: "int \<rightharpoonup> PageTimer"
  penaltyCount :: int
  bpLifelineUsed :: "bool option"

record RecordingSession =
  isRecording :: bool
  filePath :: "string option"

text \<open>
  The state of the screen (one field per \<^verbatim>\<open>useState\<close>), followed by the three
  collaborators the handlers act on: the recorder's \<^verbatim>\<open>currentSession\<close>, the stored
  progress document of this user and book, and the audio segments uploaded for them
  (page and local path of each upload, oldest first). \<open>progressTrace\<close> is a history
  variable: every value passed to \<^verbatim>\<open>setUploadProgress\<close>, in order.
\<close>

record Reader =
  currentPage :: int
  progress :: "BookProgress option"
  localAudioPath :: "string option"
  recordingsByPage :: "(int \<times> string list) list"
  pageTime :: int
  timersByPage :: "int \<rightharpoonup> int"
  overtimeTriggered :: bool
  recordingStopped :: bool
  recordedByPage :: "int \<rightharpoonup> int"
  cappedByPage :: "int \<rightharpoonup> bool"
  lifelineUsed :: bool
  exceededPages :: "int \<rightharpoonup> bool"
  timeLimitVisible :: bool
  isUploading :: bool
  uploadProgress :: int
  progressTrace :: "int list"
  session :: "RecordingSession option"
  stored :: "BookProgress option"
  remoteAudio :: "(int \<times> string) list"

text \<open>
  How one upload of \<^verbatim>\<open>AudioService.uploadSegment\<close> ends: without network, with the
  local file unreadable, with the storage upload failing, or with the segment uploaded.
\<close>

datatype uploadOutcome = NoNetwork | BlobFails | UploadFails | Uploaded

text \<open>
  What the outside world answers during one handler: microphone permission, the URI the
  recorder gives a new capture (\<open>None\<close>: \<^verbatim>\<open>startRecorder\<close> throws), the URI
  \<^verbatim>\<open>stopRecorder\<close> returns (\<open>None\<close>: it throws), whether a write of the progress
  document succeeds, how the upload of a segment ends, and whether the two calls of the
  extensive reset succeed.
\<close>

record Env =
  permission :: bool
  startUri :: "string option"
  stopUri :: "string option"
  storeOk :: bool
  uploadResult :: "int \<Rightarrow> string \<Rightarrow> uploadOutcome"
  deleteOk :: bool
  resetOk :: bool

section \<open>JavaScript idioms\<close>

text \<open>\<^verbatim>\<open>m[k] ?? 0\<close> on a map of numbers.\<close>

definition get0 :: "(int \<rightharpoonup> int) \<Rightarrow> int \<Rightarrow> int" where
  "get0 m k = (case m k of None \<Rightarrow> 0 | Some v \<Rightarrow> v)"

text \<open>\<^verbatim>\<open>m[k] === true\<close>, and the truthiness of \<^verbatim>\<open>m[k]\<close>, on a map of booleans.\<close>

definition isTrue :: "(int \<rightharpoonup> bool) \<Rightarrow> int \<Rightarrow> bool" where
  "isTrue m k = (m k = Some True)"

text \<open>\<^verbatim>\<open>a || b\<close> on numbers: \<open>b\<close> when \<open>a\<close> is undefined or zero.\<close>

definition orElse :: "int option \<Rightarrow> int \<Rightarrow> int" where
  "orElse a b = (case a of None \<Rightarrow> b | Some v \<Rightarrow> if v = 0 then b else v)"

text \<open>\<^verbatim>\<open>s || null\<close> on a string: the empty string is falsy.\<close>

definition truthyStr :: "string option \<Rightarrow> string option" where
  "truthyStr a = (case a of None \<Rightarrow> None | Some v \<Rightarrow> if v = [] then None else Some v)"

text \<open>\<^verbatim>\<open>prev[page] || []\<close> on the segment map.\<close>

definition segmentsOf :: "(int \<times> string list) list \<Rightarrow> int \<Rightarrow> string list" where
  "segmentsOf m k = (case map_of m k of None \<Rightarrow> [] | Some xs \<Rightarrow> xs)"

section \<open>The recorder (AudioService)\<close>

definition recording :: "Reader \<Rightarrow> bool" where
  "recording s = (case session s of None \<Rightarrow> False | Some r \<Rightarrow> isRecording r)"

text \<open>
  \<^verbatim>\<open>stopRecording\<close>: nothing to do unless a session is recording; a recorder that
  throws is caught and the session stays as it was; otherwise the session is marked
  stopped and the file path (the returned URI, else the session's own) is returned.
\<close>

definition stopRecording :: "Env \<Rightarrow> Reader \<Rightarrow> Reader \<times> string option" where
  "stopRecording env s =
     (case session s of
        None \<Rightarrow> (s, None)
      | Some r \<Rightarrow>
          if \<not> isRecording r then (s, None)
          else (case stopUri env of
                  None \<Rightarrow> (s, None)
                | Some u \<Rightarrow>
                    (s\<lparr>session := Some (r\<lparr>isRecording := False\<rparr>)\<rparr>,
                     truthyStr (if u \<noteq> [] then Some u else filePath r))))"

text \<open>
  \<^verbatim>\<open>startRecording\<close>: no permission, no capture; a session still recording is stopped
  first (its file path is dropped); then a new session is opened on the URI the recorder
  returns.
\<close>

definition startRecording :: "Env \<Rightarrow> Reader \<Rightarrow> Reader \<times> bool" where
  "startRecording env s =
     (if \<not> permission env then (s, False)
      else
        let s1 = (if recording s then fst (stopRecording env s) else s)
        in (case startUri env of
              None \<Rightarrow> (s1, False)
            | Some u \<Rightarrow> (s1\<lparr>session := Some \<lparr>isRecording = True, filePath = Some u\<rparr>\<rparr>, True)))"

section \<open>The progress document (BookService)\<close>

text \<open>
  \<^verbatim>\<open>updateBookProgress\<close> writes with \<^verbatim>\<open>setDoc(..., { merge: true })\<close>: the fields given
  replace the stored ones, a nested map is merged key by key, and a field the new
  document does not mention keeps its stored value. (An empty nested map would replace
  the stored one; no handler below writes an empty \<^verbatim>\<open>pageTimers\<close> over a stored one
  that is not empty.)
\<close>

definition mergePageTimer :: "PageTimer option \<Rightarrow> PageTimer \<Rightarrow> PageTimer" where
  "mergePageTimer old new =
     (case old of
        None \<Rightarrow> new
      | Some t \<Rightarrow>
          new\<lparr>recordedTotalSeconds :=
                 (case recordedTotalSeconds new of None \<Rightarrow> recordedTotalSeconds t | Some v \<Rightarrow> Some v),
              isCapped :=
                 (case isCapped new of None \<Rightarrow> isCapped t | Some v \<Rightarrow> Some v)\<rparr>)"

definition mergeProgress :: "BookProgress option \<Rightarrow> BookProgress \<Rightarrow> BookProgress" where
  "mergeProgress old new =
     (case old of
        None \<Rightarrow> new
      | Some d \<Rightarrow>
          new\<lparr>pageTimers :=
                 (\<lambda>k. case pageTimers new k of
                         None \<Rightarrow> pageTimers d k
                       | Some t \<Rightarrow> Some (mergePageTimer (pageTimers d k) t)),
              bpLifelineUsed :=
                 (case bpLifelineUsed new of None \<Rightarrow> bpLifelineUsed d | Some v \<Rightarrow> Some v)\<rparr>)"

text \<open>\<open>None\<close>: the write throws.\<close>

definition updateBookProgress :: "Env \<Rightarrow> BookProgress \<Rightarrow> Reader \<Rightarrow> Reader option" where
  "updateBookProgress env p s =
     (if storeOk env then Some (s\<lparr>stored := Some (mergeProgress (stored s) p)\<rparr>) else None)"

text \<open>
  \<^verbatim>\<open>submitBook\<close>: reads the stored document, throws when there is none, sets
  \<^verbatim>\<open>isSubmitted\<close> and writes it back. \<open>None\<close>: it throws.
\<close>

definition submitBook :: "Env \<Rightarrow> Reader \<Rightarrow> Reader option" where
  "submitBook env s =
     (case stored s of
        None \<Rightarrow> None
      | Some d \<Rightarrow> updateBookProgress env (d\<lparr>isSubmitted := True\<rparr>) s)"

definition completeBook :: "Env \<Rightarrow> Reader \<Rightarrow> Reader option" where
  "completeBook env s =
     (case stored s of
        None \<Rightarrow> None
      | Some d \<Rightarrow> updateBookProgress env (d\<lparr>isCompleted := True\<rparr>) s)"

section \<open>The reading-session controller (ImageBookReaderScreen)\<close>

text \<open>
  A handler of the component reads the state variables of the render that created it
  (its closure, \<open>c\<close>) and changes the current state \<open>s\<close> through the setters and the
  services. Each function below therefore takes both; an event handler called by the
  user interface, and an effect, run with \<open>c = s\<close>. The steps of one handler are
  taken in the order of its \<^verbatim>\<open>await\<close>s, with no other event in between.
\<close>

definition getTotalPages :: "Book \<Rightarrow> Reader \<Rightarrow> int" where
  "getTotalPages b c =
     (if pagesLength b > 0 then pagesLength b
      else (case progress c of
              None \<Rightarrow> 7
            | Some p \<Rightarrow> if totalPages p > 0 then totalPages p else 7))"

text \<open>
  \<^verbatim>\<open>progress?.pageTimers\<close> as a closure reads it. \<^verbatim>\<open>finalizePageTime\<close> and
  \<^verbatim>\<open>persistCapForPage\<close> put the \<^verbatim>\<open>pageTimers\<close> object of the progress they read into
  the progress they build, and assign into it in place; so every non-null progress of
  one session shares one \<^verbatim>\<open>pageTimers\<close> object, and a closure reads its current
  content. A closure whose progress is null starts from a fresh \<^verbatim>\<open>{}\<close>.
\<close>

definition livePageTimers :: "Reader \<Rightarrow> Reader \<Rightarrow> (int \<rightharpoonup> PageTimer)" where
  "livePageTimers c s =
     (case progress c of
        None \<Rightarrow> Map.empty
      | Some _ \<Rightarrow> (case progress s of None \<Rightarrow> Map.empty | Some p \<Rightarrow> pageTimers p))"

text \<open>The in-place assignment \<^verbatim>\<open>pageTimers[pageKey] = ...\<close>, seen by the current progress.\<close>

definition assignPageTimers :: "Reader \<Rightarrow> (int \<rightharpoonup> PageTimer) \<Rightarrow> Reader \<Rightarrow> Reader" where
  "assignPageTimers c m s =
     (case progress c of
        None \<Rightarrow> s
      | Some _ \<Rightarrow> s\<lparr>progress := map_option (\<lambda>q. q\<lparr>pageTimers := m\<rparr>) (progress s)\<rparr>)"

definition stopCurrentRecording :: "Env \<Rightarrow> Reader \<Rightarrow> Reader \<Rightarrow> Reader \<times> string option" where
  "stopCurrentRecording env c s =
     (let (s1, fp) = stopRecording env s;
          s2 = s1\<lparr>localAudioPath := fp\<rparr>
      in (case fp of
            None \<Rightarrow> (s2, None)
          | Some f \<Rightarrow>
              (s2\<lparr>recordingsByPage :=
                    AList.update (currentPage c)
                      (segmentsOf (recordingsByPage s2) (currentPage c) @ [f])
                      (recordingsByPage s2)\<rparr>,
               Some f)))"

text \<open>
  \<^verbatim>\<open>finalizePageTime\<close>: the page's entry is rebuilt from the closure's stopwatch value
  (without \<^verbatim>\<open>recordedTotalSeconds\<close> and \<^verbatim>\<open>isCapped\<close>), written, and made the
  current progress. When the write throws, the closure's progress is returned; its
  \<^verbatim>\<open>pageTimers\<close> object has been assigned to all the same.
\<close>

definition finalizePageTime ::
  "Book \<Rightarrow> Env \<Rightarrow> Reader \<Rightarrow> Reader \<Rightarrow> int \<Rightarrow> Reader \<times> BookProgress option" where
  "finalizePageTime b env c s page =
     (let old = livePageTimers c s;
          entry = \<lparr>pageNumber = page,
                   totalTime = get0 (timersByPage c) page,
                   exceedanceCount = (case old page of None \<Rightarrow> 0 | Some t \<Rightarrow> exceedanceCount t),
                   timerCompleted = True,
                   recordedTotalSeconds = None,
                   isCapped = None\<rparr>;
          timers' = old(page \<mapsto> entry);
          updatedProgress =
            \<lparr>bpCurrentPage = page,
             totalPages = getTotalPages b c,
             isCompleted = False,
             isSubmitted = False,
             pageTimers = timers',
             penaltyCount = (case progress c of None \<Rightarrow> 0 | Some p \<Rightarrow> penaltyCount p),
             bpLifelineUsed = None\<rparr>
      in (case updateBookProgress env updatedProgress s of
            Some s1 \<Rightarrow> (s1\<lparr>progress := Some updatedProgress\<rparr>, Some updatedProgress)
          | None \<Rightarrow>
              (assignPageTimers c timers' s,
               map_option (\<lambda>p. p\<lparr>pageTimers := timers'\<rparr>) (progress c))))"

text \<open>
  \<^verbatim>\<open>persistCapForPage\<close>: the entry of the page is written with \<^verbatim>\<open>isCapped: true\<close> and
  the recorded seconds clamped to 600. Its \<^verbatim>\<open>totalTime\<close> is the closure's stopwatch
  value for the page.
\<close>

definition persistCapForPage ::
  "Book \<Rightarrow> Env \<Rightarrow> Reader \<Rightarrow> Reader \<Rightarrow> int \<Rightarrow> int \<Rightarrow> Reader" where
  "persistCapForPage b env c s page recordedSeconds =
     (let old = livePageTimers c s;
          absolute = (case timersByPage c page of
                        Some v \<Rightarrow> v
                      | None \<Rightarrow> (case old page of None \<Rightarrow> 0 | Some t \<Rightarrow> totalTime t));
          entry = \<lparr>pageNumber = page,
                   totalTime = absolute,
                   exceedanceCount = (case old page of None \<Rightarrow> 0 | Some t \<Rightarrow> exceedanceCount t),
                   timerCompleted = True,
                   recordedTotalSeconds = Some (min 600 recordedSeconds),
                   isCapped = Some True\<rparr>;
          timers' = old(page \<mapsto> entry);
          updatedProgress =
            \<lparr>bpCurrentPage = page,
             totalPages = getTotalPages b c,
             isCompleted = (case progress c of None \<Rightarrow> False | Some p \<Rightarrow> isCompleted p),
             isSubmitted = (case progress c of None \<Rightarrow> False | Some p \<Rightarrow> isSubmitted p),
             pageTimers = timers',
             penaltyCount = (case progress c of None \<Rightarrow> 0 | Some p \<Rightarrow> penaltyCount p),
             bpLifelineUsed = None\<rparr>
      in (case updateBookProgress env updatedProgress s of
            Some s1 \<Rightarrow> s1\<lparr>progress := Some updatedProgress\<rparr>
          | None \<Rightarrow> assignPageTimers c timers' s))"

text \<open>
  Modelled from the spec: \<^verbatim>\<open>StorageService.deleteAllUserBookAudio\<close> is called by the
  reset but is not among the sources. The spec: the reset "deletes all uploaded audio
  for that (user, book)". \<open>None\<close>: the call throws.
\<close>

definition deleteAllUserBookAudio :: "Env \<Rightarrow> Reader \<Rightarrow> Reader option" where
  "deleteAllUserBookAudio env s =
     (if deleteOk env then Some (s\<lparr>remoteAudio := []\<rparr>) else None)"

text \<open>
  Modelled from the spec: \<^verbatim>\<open>BookService.resetBookProgress\<close> is called by the reset but
  is not among the sources. The spec: the reset "wipes pageTimers, lifelineUsed", and
  after it "pageTimers = {}, lifelineUsed = false, currentPage = 1" in the stored
  progress. \<open>None\<close>: the call throws.
\<close>

definition storedReset :: "BookProgress \<Rightarrow> BookProgress" where
  "storedReset d = d\<lparr>bpCurrentPage := 1, pageTimers := Map.empty, bpLifelineUsed := Some False\<rparr>"

definition resetBookProgress :: "Env \<Rightarrow> Reader \<Rightarrow> Reader option" where
  "resetBookProgress env s =
     (if resetOk env then Some (s\<lparr>stored := map_option storedReset (stored s)\<rparr>) else None)"

text \<open>
  \<^verbatim>\<open>handleExtensiveReset\<close>: one \<^verbatim>\<open>try\<close> block; a call that throws leaves the rest
  undone.
\<close>

definition handleExtensiveReset :: "Env \<Rightarrow> Reader \<Rightarrow> Reader" where
  "handleExtensiveReset env s =
     (let s1 = fst (stopRecording env s)
      in (case deleteAllUserBookAudio env s1 of
            None \<Rightarrow> s1
          | Some s2 \<Rightarrow>
              (case resetBookProgress env s2 of
                 None \<Rightarrow> s2
               | Some s3 \<Rightarrow>
                   s3\<lparr>timersByPage := Map.empty,
                      recordedByPage := Map.empty,
                      exceededPages := Map.empty,
                      cappedByPage := Map.empty,
                      lifelineUsed := False,
                      timeLimitVisible := True\<rparr>)))"

text \<open>What the reset leaves of the session on the screen.\<close>

definition sessionCleared :: "Reader \<Rightarrow> bool" where
  "sessionCleared s =
     (timersByPage s = Map.empty \<and> recordedByPage s = Map.empty \<and> exceededPages s = Map.empty
      \<and> cappedByPage s = Map.empty \<and> \<not> lifelineUsed s \<and> timeLimitVisible s)"

text \<open>
  The stopwatch interval: one tick. The stopwatch of the current page is advanced by a
  functional update; the intensive branch reads the closure.
\<close>

definition tick :: "Book \<Rightarrow> Env \<Rightarrow> Reader \<Rightarrow> Reader \<Rightarrow> Reader" where
  "tick b env c s =
     (let cp = currentPage c;
          wasRecording = recording s;
          next = get0 (timersByPage s) cp + 1;
          s1 = s\<lparr>timersByPage := (timersByPage s)(cp \<mapsto> next), pageTime := next\<rparr>
      in if category b = Intensive then
           (let capped = isTrue (cappedByPage c) cp;
                s2 = (if capped \<and> wasRecording then fst (stopRecording env s1) else s1)
            in if \<not> capped \<and> wasRecording then
                 (let currentRecorded = get0 (recordedByPage c) cp
                  in if currentRecorded < 600 then
                       (let nextRecorded = min 600 (currentRecorded + 1);
                            s3 = (if nextRecorded \<noteq> currentRecorded
                                  then s2\<lparr>recordedByPage := (recordedByPage s2)(cp \<mapsto> nextRecorded)\<rparr>
                                  else s2)
                        in if nextRecorded \<ge> 600 then
                             (let s4 = fst (stopRecording env s3);
                                  s5 = s4\<lparr>cappedByPage := (cappedByPage s4)(cp \<mapsto> True),
                                          recordingStopped := True\<rparr>
                              in persistCapForPage b env c s5 cp nextRecorded)
                           else s3)
                     else s2)
               else s2)
         else s1)"

text \<open>
  Ticks in a row. While the capture runs on an uncapped intensive page every tick
  changes \<^verbatim>\<open>recordedByPage\<close>, a dependency of the interval's effect, so each tick is
  taken by the interval of the render before it: its closure is the state it finds.
\<close>

fun ticks :: "nat \<Rightarrow> Book \<Rightarrow> Env \<Rightarrow> Reader \<Rightarrow> Reader" where
  "ticks 0 b env s = s"
| "ticks (Suc n) b env s = ticks n b env (tick b env s s)"

text \<open>
  The effect on \<^verbatim>\<open>timersByPage\<close> that handles extensive overtime. An effect runs after
  the render whose state it reads, so closure and state are one.
\<close>

definition overtimeEffect :: "Book \<Rightarrow> Env \<Rightarrow> Reader \<Rightarrow> Reader" where
  "overtimeEffect b env s =
     (if category b \<noteq> Extensive then s
      else
        let total = getTotalPages b s;
            cp = currentPage s;
            current = get0 (timersByPage s) cp
        in if current < 420 then s
           else if isTrue (exceededPages s) cp then s
           else if total = 1 then
             (let s1 = s\<lparr>exceededPages := (exceededPages s)(cp \<mapsto> True)\<rparr>;
                  s2 = fst (stopCurrentRecording env s s1)
              in handleExtensiveReset env s2)
           else if total = 2 then
             (let priorExceeds = (if isTrue (exceededPages s) 1 then 1 else 0)
                               + (if isTrue (exceededPages s) 2 then 1 else (0::int));
                  s1 = s\<lparr>exceededPages := (exceededPages s)(cp \<mapsto> True)\<rparr>
              in if priorExceeds \<ge> 1 then
                   handleExtensiveReset env (fst (stopCurrentRecording env s s1))
                 else if \<not> lifelineUsed s then
                   (let s2 = s1\<lparr>lifelineUsed := True,
                               cappedByPage := (cappedByPage s1)(cp \<mapsto> True)\<rparr>;
                        s3 = fst (stopCurrentRecording env s s2);
                        (s4, updated) = finalizePageTime b env s s3 cp
                    in (case updated of
                          None \<Rightarrow> s4
                        | Some u \<Rightarrow>
                            (let u' = u\<lparr>bpLifelineUsed := Some True\<rparr>;
                                 s5 = s4\<lparr>progress := Some u'\<rparr>
                             in (case updateBookProgress env u' s5 of
                                   None \<Rightarrow> s5
                                 | Some s6 \<Rightarrow> s6))))
                 else
                   (let s2 = s1\<lparr>cappedByPage := (cappedByPage s1)(cp \<mapsto> True)\<rparr>
                    in fst (stopCurrentRecording env s s2)))
           else s)"

text \<open>
  \<^verbatim>\<open>loadProgress\<close>, run once on mount. Every page of the stored \<^verbatim>\<open>pageTimers\<close> seeds
  the stopwatch, the recorded seconds (when stored) and the cap, which is derived from
  the explicit flag, from the recorded seconds or from the total time. The guard
  \<^verbatim>\<open>Object.keys(seededExceeded).length > 0\<close> only skips merging an empty object.
  A read that fails is answered like a missing document.
\<close>

definition reachedCap :: "PageTimer \<Rightarrow> bool" where
  "reachedCap t =
     (isCapped t = Some True
      \<or> (case recordedTotalSeconds t of None \<Rightarrow> False | Some r \<Rightarrow> r \<ge> 600)
      \<or> totalTime t \<ge> 600)"

definition loadProgress :: "Book \<Rightarrow> Reader \<Rightarrow> Reader" where
  "loadProgress b s =
     (case stored s of
        None \<Rightarrow> s
      | Some userProgress \<Rightarrow>
          (let cp = bpCurrentPage userProgress;
               timersMap = pageTimers userProgress;
               seededTimers = (\<lambda>p. map_option totalTime (timersMap p));
               seededRecorded = (\<lambda>p. case timersMap p of
                                        None \<Rightarrow> None
                                      | Some t \<Rightarrow> recordedTotalSeconds t);
               seededCapped = (\<lambda>p. case timersMap p of
                                      None \<Rightarrow> None
                                    | Some t \<Rightarrow> if reachedCap t then Some True else None);
               saved = get0 seededTimers cp;
               s1 = s\<lparr>progress := Some userProgress,
                      currentPage := cp,
                      timersByPage := timersByPage s ++ seededTimers,
                      recordedByPage := recordedByPage s ++ seededRecorded,
                      cappedByPage := cappedByPage s ++ seededCapped,
                      lifelineUsed := (if bpLifelineUsed userProgress = Some True then True
                                       else lifelineUsed s)\<rparr>;
               s2 = (if category b = Extensive \<and> getTotalPages b s = 2 then
                       (let seededExceeded =
                              (\<lambda>p. case seededTimers p of
                                      None \<Rightarrow> None
                                    | Some v \<Rightarrow> if v \<ge> 420 then Some True else None)
                        in s1\<lparr>exceededPages := exceededPages s1 ++ seededExceeded,
                              cappedByPage := cappedByPage s1 ++ seededExceeded\<rparr>)
                     else s1)
           in s2\<lparr>pageTime := saved,
                 overtimeTriggered := (saved \<ge> 420),
                 recordingStopped := (seededCapped cp = Some True)\<rparr>))"

text \<open>
  \<^verbatim>\<open>startRecordingForPage\<close>: an intensive page whose cap is in effect, and an extensive
  page that has reached 420 seconds, get no capture.
\<close>

definition effectiveCap :: "Reader \<Rightarrow> PageTimer option \<Rightarrow> int \<Rightarrow> bool" where
  "effectiveCap c pg pageNo =
     (let explicitCap = (isTrue (cappedByPage c) pageNo
                         \<or> (case pg of None \<Rightarrow> False | Some t \<Rightarrow> isCapped t = Some True));
          recSecs = (case pg of None \<Rightarrow> None | Some t \<Rightarrow> recordedTotalSeconds t);
          legacyOver = ((case pg of None \<Rightarrow> 0 | Some t \<Rightarrow> totalTime t) \<ge> 600)
      in explicitCap \<or> (case recSecs of None \<Rightarrow> False | Some r \<Rightarrow> r \<ge> 600) \<or> legacyOver)"

definition startRecordingForPage :: "Book \<Rightarrow> Env \<Rightarrow> Reader \<Rightarrow> Reader \<Rightarrow> int \<Rightarrow> Reader" where
  "startRecordingForPage b env c s pageNo =
     (let pg = livePageTimers c s pageNo
      in if category b = Intensive \<and> effectiveCap c pg pageNo then
           (let recSecs = (case pg of None \<Rightarrow> None | Some t \<Rightarrow> recordedTotalSeconds t);
                s1 = s\<lparr>recordingStopped := True,
                       cappedByPage := (cappedByPage s)(pageNo \<mapsto> True)\<rparr>
            in if (case pg of None \<Rightarrow> True | Some t \<Rightarrow> isCapped t \<noteq> Some True)
               then persistCapForPage b env c s1 pageNo
                      (max (case recSecs of None \<Rightarrow> 0 | Some r \<Rightarrow> r) 600)
               else s1)
         else if category b = Extensive
                 \<and> (isTrue (exceededPages c) pageNo
                    \<or> get0 (timersByPage c) pageNo \<ge> 420
                    \<or> (case pg of None \<Rightarrow> 0 | Some t \<Rightarrow> totalTime t) \<ge> 420) then
           s\<lparr>cappedByPage := (cappedByPage s)(pageNo \<mapsto> True)\<rparr>
         else fst (startRecording env s))"

text \<open>
  The effect on \<^verbatim>\<open>[progress, currentPage]\<close>: once a progress is there, capture is
  (re)started for the current page.
\<close>

definition startRecordingEffect :: "Book \<Rightarrow> Env \<Rightarrow> Reader \<Rightarrow> Reader" where
  "startRecordingEffect b env s =
     (case progress s of
        None \<Rightarrow> s
      | Some _ \<Rightarrow> startRecordingForPage b env s s (currentPage s))"

text \<open>
  The lines that \<^verbatim>\<open>handlePreviousPage\<close> and \<^verbatim>\<open>handleNextPage\<close> share: stop the
  capture, checkpoint the page left, move to \<open>newPage\<close>, take its stopwatch, recorded
  seconds and cap from the saved progress or from the closure, and start the capture.
\<close>

definition switchToPage :: "Book \<Rightarrow> Env \<Rightarrow> Reader \<Rightarrow> Reader \<Rightarrow> int \<Rightarrow> Reader" where
  "switchToPage b env c s newPage =
     (let s1 = fst (stopCurrentRecording env c s);
          (s2, newProgress) = finalizePageTime b env c s1 (currentPage c);
          pt = (case newProgress of None \<Rightarrow> None | Some p \<Rightarrow> pageTimers p newPage);
          savedTotal = map_option totalTime pt;
          savedRecorded = (case pt of None \<Rightarrow> None | Some t \<Rightarrow> recordedTotalSeconds t);
          saved = orElse savedTotal (get0 (timersByPage c) newPage);
          recordedSaved =
            orElse savedRecorded
              (orElse (Some (get0 (recordedByPage c) newPage))
                 (if orElse savedTotal 0 \<ge> 600 then 600 else 0));
          capped = ((case pt of None \<Rightarrow> False | Some t \<Rightarrow> isCapped t = Some True)
                    \<or> isTrue (cappedByPage c) newPage
                    \<or> orElse savedRecorded 0 \<ge> 600
                    \<or> orElse savedTotal 0 \<ge> 600);
          s3 = s2\<lparr>currentPage := newPage,
                 timersByPage := (timersByPage s2)(newPage \<mapsto> saved),
                 pageTime := saved,
                 overtimeTriggered := (saved \<ge> 420),
                 recordedByPage := (recordedByPage s2)(newPage \<mapsto> recordedSaved),
                 cappedByPage := (cappedByPage s2)(newPage \<mapsto> capped),
                 recordingStopped := capped\<rparr>
      in startRecordingForPage b env c s3 newPage)"

definition handlePreviousPage :: "Book \<Rightarrow> Env \<Rightarrow> Reader \<Rightarrow> Reader" where
  "handlePreviousPage b env s =
     (if currentPage s > 1 then switchToPage b env s s (currentPage s - 1) else s)"

definition handleNextPage :: "Book \<Rightarrow> Env \<Rightarrow> Reader \<Rightarrow> Reader" where
  "handleNextPage b env s =
     (let total = getTotalPages b s;
          currentSeconds = get0 (timersByPage s) (currentPage s)
      in if currentSeconds < 120 then s
         else if currentPage s < total then switchToPage b env s s (currentPage s + 1)
         else s)"

definition handleBackPress :: "Book \<Rightarrow> Env \<Rightarrow> Reader \<Rightarrow> Reader" where
  "handleBackPress b env s =
     (let s1 = fst (stopCurrentRecording env s s)
      in fst (finalizePageTime b env s s1 (currentPage s)))"

text \<open>
  Runs of a session: an event is a tick of the stopwatch or a press on Next or Previous,
  each with the answers of the outside world during it; after a page turn the effect
  that starts the capture runs.
\<close>

datatype event = Tick | Next | Previous

fun step :: "Book \<Rightarrow> Env \<times> event \<Rightarrow> Reader \<Rightarrow> Reader" where
  "step b (env, Tick) s = tick b env s s"
| "step b (env, Next) s = startRecordingEffect b env (handleNextPage b env s)"
| "step b (env, Previous) s = startRecordingEffect b env (handlePreviousPage b env s)"

definition run :: "Book \<Rightarrow> (Env \<times> event) list \<Rightarrow> Reader \<Rightarrow> Reader" where
  "run b es s = foldl (\<lambda>st e. step b e st) s es"

text \<open>
  The invariant of a run: the entry that the screen's progress holds for a page other
  than the current one carries that page's stopwatch value.
\<close>

definition entryOf :: "Reader \<Rightarrow> int \<Rightarrow> PageTimer option" where
  "entryOf s p = (case progress s of None \<Rightarrow> None | Some pr \<Rightarrow> pageTimers pr p)"

definition agrees :: "PageTimer option \<Rightarrow> int \<Rightarrow> bool" where
  "agrees e v = (case e of None \<Rightarrow> True | Some t \<Rightarrow> totalTime t = v)"

definition checkpointed :: "Reader \<Rightarrow> bool" where
  "checkpointed s = (\<forall>p. p = currentPage s \<or> agrees (entryOf s p) (get0 (timersByPage s) p))"

section \<open>Uploading the segments\<close>

text \<open>
  \<^verbatim>\<open>uploadSegment\<close> reports 10 after the network check, 20 and 40 after reading the file,
  90 after the upload and 100 at the end; a failure ends the reports where it happens.
\<close>

fun progressEvents :: "uploadOutcome \<Rightarrow> int list" where
  "progressEvents NoNetwork = []"
| "progressEvents BlobFails = [10]"
| "progressEvents UploadFails = [10, 20, 40]"
| "progressEvents Uploaded = [10, 20, 40, 90, 100]"

definition setUploadProgress :: "int \<Rightarrow> Reader \<Rightarrow> Reader" where
  "setUploadProgress v s = s\<lparr>uploadProgress := v, progressTrace := progressTrace s @ [v]\<rparr>"

text \<open>
  One upload with its \<^verbatim>\<open>perFileUpdater\<close>. The source computes
  \<^verbatim>\<open>Math.floor((p / 100) * (100 / totalSegments))\<close> and
  \<^verbatim>\<open>Math.floor((uploadedSegments / totalSegments) * 100)\<close> in floating point; the
  integer quotients below are their exact values.
\<close>

definition uploadSegment ::
  "Env \<Rightarrow> int \<Rightarrow> int \<Rightarrow> int \<Rightarrow> string \<Rightarrow> Reader \<Rightarrow> Reader \<times> bool" where
  "uploadSegment env totalSegments baseProgress pageNum segmentPath s =
     (let outcome = uploadResult env pageNum segmentPath;
          s1 = foldl (\<lambda>st p. setUploadProgress (min 99 (baseProgress + p div totalSegments)) st)
                 s (progressEvents outcome)
      in if outcome = Uploaded
         then (s1\<lparr>remoteAudio := remoteAudio s1 @ [(pageNum, segmentPath)]\<rparr>, True)
         else (s1, False))"

text \<open>The inner loop, over the segments of one page; the flag tells whether none failed.\<close>

fun uploadSegments ::
  "Env \<Rightarrow> int \<Rightarrow> int \<Rightarrow> string list \<Rightarrow> int \<Rightarrow> Reader \<Rightarrow> Reader \<times> int \<times> bool" where
  "uploadSegments env totalSegments pageNum [] uploadedSegments s = (s, uploadedSegments, True)"
| "uploadSegments env totalSegments pageNum (segmentPath # rest) uploadedSegments s =
     (let baseProgress = (uploadedSegments * 100) div totalSegments;
          (s1, success) = uploadSegment env totalSegments baseProgress pageNum segmentPath s
      in if success then uploadSegments env totalSegments pageNum rest (uploadedSegments + 1) s1
         else (s1, uploadedSegments, False))"

text \<open>The outer loop, over the pages.\<close>

fun uploadPages ::
  "Env \<Rightarrow> int \<Rightarrow> (int \<times> string list) list \<Rightarrow> int list \<Rightarrow> int \<Rightarrow> Reader \<Rightarrow> Reader \<times> bool" where
  "uploadPages env totalSegments localMap [] uploadedSegments s = (s, True)"
| "uploadPages env totalSegments localMap (pageNum # rest) uploadedSegments s =
     (let (s1, uploaded1, success) =
            uploadSegments env totalSegments pageNum (segmentsOf localMap pageNum) uploadedSegments s
      in if success then uploadPages env totalSegments localMap rest uploaded1 s1
         else (s1, False))"

text \<open>
  \<^verbatim>\<open>handleMandatoryUpload\<close>. The segment map uploaded is the closure's, with the
  segment just stopped added by hand. A failed upload throws out of both loops into the
  \<^verbatim>\<open>catch\<close>, which only clears \<^verbatim>\<open>isUploading\<close>: the handler itself returns normally.
\<close>

definition localMapOf :: "Reader \<Rightarrow> string option \<Rightarrow> (int \<times> string list) list" where
  "localMapOf c currentFilePath =
     (case currentFilePath of
        None \<Rightarrow> recordingsByPage c
      | Some f \<Rightarrow>
          (let existing = segmentsOf (recordingsByPage c) (currentPage c)
           in if f \<in> set existing then recordingsByPage c
              else AList.update (currentPage c) (existing @ [f]) (recordingsByPage c)))"

definition handleMandatoryUpload :: "Env \<Rightarrow> Reader \<Rightarrow> Reader \<Rightarrow> Reader" where
  "handleMandatoryUpload env c s =
     (let s0 = setUploadProgress 0 (s\<lparr>isUploading := True\<rparr>);
          (s1, currentFilePath) = stopCurrentRecording env c s0;
          localMap = localMapOf c currentFilePath;
          pagesToUpload = sort (map fst localMap)
      in if pagesToUpload = [] then s1\<lparr>isUploading := False\<rparr>
         else
           (let counted = sum_list (map (\<lambda>p. int (length (segmentsOf localMap p))) pagesToUpload);
                totalSegments = (if counted = 0 then 1 else counted);
                (s2, success) = uploadPages env totalSegments localMap pagesToUpload 0 s1
            in if success
               then (setUploadProgress 100 s2)\<lparr>isUploading := False, recordingsByPage := []\<rparr>
               else s2\<lparr>isUploading := False\<rparr>))"

text \<open>
  For stating what a batch does: the (page, segment) pairs of a segment map in the
  order of the two loops, and whether the upload of a pair succeeds.
\<close>

definition uploadOrder :: "(int \<times> string list) list \<Rightarrow> int list \<Rightarrow> (int \<times> string) list" where
  "uploadOrder localMap pages = concat (map (\<lambda>p. map (Pair p) (segmentsOf localMap p)) pages)"

definition uploadedOk :: "Env \<Rightarrow> int \<times> string \<Rightarrow> bool" where
  "uploadedOk env x = (uploadResult env (fst x) (snd x) = Uploaded)"

text \<open>The batch that a submit on the state \<open>s\<close> uploads, in upload order.\<close>

definition batchOf :: "Env \<Rightarrow> Reader \<Rightarrow> (int \<times> string) list" where
  "batchOf env s =
     uploadOrder (localMapOf s (snd (stopRecording env s)))
       (sort (map fst (localMapOf s (snd (stopRecording env s)))))"

text \<open>
  \<^verbatim>\<open>handleSubmitInProgress\<close>: checkpoint, upload, then \<^verbatim>\<open>submitBook\<close>. A
  \<^verbatim>\<open>submitBook\<close> that throws leaves the state as the upload left it.
\<close>

definition handleSubmitInProgress :: "Book \<Rightarrow> Env \<Rightarrow> Reader \<Rightarrow> Reader" where
  "handleSubmitInProgress b env s =
     (let s1 = fst (finalizePageTime b env s s (currentPage s));
          s2 = handleMandatoryUpload env s s1
      in (case submitBook env s2 of None \<Rightarrow> s2 | Some s3 \<Rightarrow> s3))"

text \<open>The \<^verbatim>\<open>onCompleteBook\<close> callback of the confirmation dialog.\<close>

definition onCompleteBook :: "Env \<Rightarrow> Reader \<Rightarrow> Reader" where
  "onCompleteBook env s =
     (let s1 = handleMandatoryUpload env s s
      in (case completeBook env s1 of None \<Rightarrow> s1 | Some s2 \<Rightarrow> s2))"

section \<open>Quiz completion and the sticker award\<close>

text \<open>
  \<^verbatim>\<open>BookService.awardSticker\<close> and \<^verbatim>\<open>QuizScreen.completeQuiz\<close>. A user document holds
  its stickers, or no array under that name (\<open>None\<close>); the image path and description
  of a sticker, shown only, are left out.
\<close>

record Sticker =
  stickerId :: string
  stickerName :: string
  earnedAt :: "int option"

record UserAnswer =
  questionId :: string
  selectedAnswer :: int
  isCorrect :: bool

record QuizResult =
  score :: nat
  totalQuestions :: nat
  passed :: bool
  answers :: "UserAnswer list"

record QuizDb =
  userStickers :: "string \<rightharpoonup> Sticker list option"
  quizResults :: "string \<times> string \<rightharpoonup> QuizResult"

text \<open>\<^verbatim>\<open>Array.isArray(user.stickers) ? user.stickers : []\<close>\<close>

definition stickersArray :: "Sticker list option \<Rightarrow> Sticker list" where
  "stickersArray field = (case field of None \<Rightarrow> [] | Some xs \<Rightarrow> xs)"

definition awardSticker :: "bool \<Rightarrow> int \<Rightarrow> string \<Rightarrow> Sticker \<Rightarrow> QuizDb \<Rightarrow> QuizDb" where
  "awardSticker writeOk now userId sticker db =
     (case userStickers db userId of
        None \<Rightarrow> db
      | Some field \<Rightarrow>
          (let stickers = stickersArray field
           in (case find (\<lambda>s. stickerId s = stickerId sticker) stickers of
                 Some already \<Rightarrow> db
               | None \<Rightarrow>
                   if writeOk
                   then db\<lparr>userStickers :=
                             (userStickers db)
                               (userId \<mapsto> Some (stickers @ [sticker\<lparr>earnedAt := Some now\<rparr>]))\<rparr>
                   else db)))"

definition saveQuizResult :: "bool \<Rightarrow> string \<Rightarrow> string \<Rightarrow> QuizResult \<Rightarrow> QuizDb \<Rightarrow> QuizDb" where
  "saveQuizResult writeOk userId bid result db =
     (if writeOk then db\<lparr>quizResults := (quizResults db)((userId, bid) \<mapsto> result)\<rparr> else db)"

text \<open>
  \<^verbatim>\<open>completeQuiz\<close>, given the number of questions on the screen and the answer log.
  The two flags tell whether the write of the result and the write of the sticker
  succeed. \<open>stickerFor\<close> is the sticker literal of the handler.
\<close>

definition stickerFor :: "Book \<Rightarrow> Sticker" where
  "stickerFor b =
     \<lparr>stickerId = ''sticker_'' @ bookId b,
      stickerName = title b @ '' Award'',
      earnedAt = None\<rparr>"

definition completeQuiz ::
  "bool \<Rightarrow> bool \<Rightarrow> int \<Rightarrow> string \<Rightarrow> Book \<Rightarrow> nat \<Rightarrow> UserAnswer list \<Rightarrow> QuizDb \<Rightarrow> QuizDb" where
  "completeQuiz saveOk awardOk now userId b questionsLength finalAnswers db =
     (let correctAnswers = length (filter isCorrect finalAnswers);
          passingScore = questionsLength;
          quizResult = \<lparr>score = correctAnswers,
                        totalQuestions = questionsLength,
                        passed = (correctAnswers \<ge> passingScore),
                        answers = finalAnswers\<rparr>;
          db1 = saveQuizResult saveOk userId (bookId b) quizResult db
      in if passed quizResult
         then awardSticker awardOk now userId (stickerFor b) db1
         else db1)"

text \<open>What a user document holds, and how often a sticker id occurs in a list.\<close>

definition stickersOfUser :: "QuizDb \<Rightarrow> string \<Rightarrow> Sticker list" where
  "stickersOfUser db userId =
     (case userStickers db userId of None \<Rightarrow> [] | Some field \<Rightarrow> stickersArray field)"

definition countSticker :: "string \<Rightarrow> Sticker list \<Rightarrow> nat" where
  "countSticker sid xs = length (filter (\<lambda>s. stickerId s = sid) xs)"

section \<open>Concrete values of the sources\<close>

text \<open>The two books of \<^verbatim>\<open>BookService.mockBooks\<close>.\<close>

definition book_002 :: Book where
  "book_002 = \<lparr>bookId = ''book_002'', title = ''A Mother in Mannville'', gradeLevel = 5,
                category = Intensive, pagesLength = 7\<rparr>"

definition book_ext_001 :: Book where
  "book_ext_001 = \<lparr>bookId = ''book_ext_001'', title = ''The Scholarship Jacket'', gradeLevel = 5,
                    category = Extensive, pagesLength = 2\<rparr>"

text \<open>The progress that \<^verbatim>\<open>BookService.startReadingWithBook\<close> creates.\<close>

definition startReadingWithBook :: "Book \<Rightarrow> BookProgress" where
  "startReadingWithBook b =
     \<lparr>bpCurrentPage = 1,
      totalPages = (if pagesLength b = 0 then 10 else pagesLength b),
      isCompleted = False,
      isSubmitted = False,
      pageTimers = Map.empty,
      penaltyCount = 0,
      bpLifelineUsed = None\<rparr>"

text \<open>
  The state of the screen when it mounts (the initial values of its \<^verbatim>\<open>useState\<close>
  calls), with no recorder session, no stored progress and no uploaded audio.
\<close>

definition initialReader :: Reader where
  "initialReader =
     \<lparr>currentPage = 1, progress = None, localAudioPath = None, recordingsByPage = [],
      pageTime = 0, timersByPage = Map.empty, overtimeTriggered = False,
      recordingStopped = False, recordedByPage = Map.empty, cappedByPage = Map.empty,
      lifelineUsed = False, exceededPages = Map.empty, timeLimitVisible = False,
      isUploading = False, uploadProgress = 0, progressTrace = [],
      session = None, stored = None, remoteAudio = []\<rparr>"

text \<open>
  The screen closed and opened again: the component state is the initial one, the
  collaborators are as they were left.
\<close>

definition remount :: "Reader \<Rightarrow> Reader" where
  "remount s = initialReader\<lparr>session := session s, stored := stored s, remoteAudio := remoteAudio s\<rparr>"

text \<open>
  A screen opened on a book whose progress has been created, capture running on the
  file \<open>f\<close>.
\<close>

definition openedReader :: "Book \<Rightarrow> string \<Rightarrow> Reader" where
  "openedReader b f =
     initialReader\<lparr>progress := Some (startReadingWithBook b),
                   stored := Some (startReadingWithBook b),
                   session := Some \<lparr>isRecording = True, filePath = Some f\<rparr>\<rparr>"

text \<open>The extensive mock book with one page, and with three.\<close>

definition onePageBook :: Book where
  "onePageBook = book_ext_001\<lparr>pagesLength := 1\<rparr>"

definition threePageBook :: Book where
  "threePageBook = book_ext_001\<lparr>pagesLength := 3\<rparr>"

text \<open>An outside world in which every call succeeds.\<close>

definition allSucceed :: Env where
  "allSucceed =
     \<lparr>permission = True, startUri = Some ''file:///rec_new.mp4'', stopUri = Some [],
      storeOk = True, uploadResult = (\<lambda>p f. Uploaded), deleteOk = True, resetOk = True\<rparr>"

text \<open>
  Page 1 of the three-page extensive book read for 420 seconds with the capture
  running; then the reader turns to page 2 and back to page 1, the effect that starts
  the capture running after each turn.
\<close>

definition sevenMinutesOnPage1 :: Reader where
  "sevenMinutesOnPage1 =
     (openedReader threePageBook ''p1.mp4'')\<lparr>timersByPage := [1 \<mapsto> 420], pageTime := 420\<rparr>"

definition backOnPage1 :: Reader where
  "backOnPage1 =
     startRecordingEffect threePageBook allSucceed
       (handlePreviousPage threePageBook allSucceed
          (startRecordingEffect threePageBook allSucceed
             (handleNextPage threePageBook allSucceed sevenMinutesOnPage1)))"

text \<open>
  The extensive policy at work. A one-page book whose page reaches 420 seconds, one
  segment of it uploaded before. The two-page mock book: page 1 reaches 420 seconds
  first; the overtime effect runs; the reader turns to page 2, which reaches 420
  seconds in its turn, a segment of page 1 uploaded meanwhile.
\<close>

definition onlyPageOver :: Reader where
  "onlyPageOver =
     (openedReader onePageBook ''p1.mp4'')
       \<lparr>timersByPage := [1 \<mapsto> 420], pageTime := 420, remoteAudio := [(1, ''p0.mp4'')]\<rparr>"

definition firstPageOver :: Reader where
  "firstPageOver =
     (openedReader book_ext_001 ''p1.mp4'')\<lparr>timersByPage := [1 \<mapsto> 420], pageTime := 420\<rparr>"

definition afterLifeline :: Reader where
  "afterLifeline = overtimeEffect book_ext_001 allSucceed firstPageOver"

definition secondPageOver :: Reader where
  "secondPageOver =
     (startRecordingEffect book_ext_001 allSucceed
        (handleNextPage book_ext_001 allSucceed afterLifeline))
       \<lparr>timersByPage := [1 \<mapsto> 420, 2 \<mapsto> 420], pageTime := 420, remoteAudio := [(1, ''p1.mp4'')]\<rparr>"

text \<open>
  Both pages of the two-page book over 420 seconds, the lifeline spent on page 1, one
  segment uploaded.
\<close>

definition bothPagesOver :: Reader where
  "bothPagesOver =
     (openedReader book_ext_001 ''p2.mp4'')
       \<lparr>currentPage := 2,
        timersByPage := [1 \<mapsto> 420, 2 \<mapsto> 420],
        pageTime := 420,
        lifelineUsed := True,
        exceededPages := [1 \<mapsto> True, 2 \<mapsto> True],
        cappedByPage := [1 \<mapsto> True],
        remoteAudio := [(1, ''p1.mp4'')],
        stored := Some ((startReadingWithBook book_ext_001)
                         \<lparr>bpCurrentPage := 2,
                          pageTimers := [1 \<mapsto> \<lparr>pageNumber = 1, totalTime = 420,
                                                exceedanceCount = 0, timerCompleted = True,
                                                recordedTotalSeconds = None, isCapped = None\<rparr>],
                          bpLifelineUsed := Some True\<rparr>)\<rparr>"

text \<open>A user without stickers, and an answer log with each of three questions answered right.\<close>

definition newUserDb :: QuizDb where
  "newUserDb = \<lparr>userStickers = [''u1'' \<mapsto> Some []], quizResults = Map.empty\<rparr>"

definition perfectAnswers :: "UserAnswer list" where
  "perfectAnswers =
     [\<lparr>questionId = ''q1'', selectedAnswer = 0, isCorrect = True\<rparr>,
      \<lparr>questionId = ''q2'', selectedAnswer = 2, isCorrect = True\<rparr>,
      \<lparr>questionId = ''q3'', selectedAnswer = 1, isCorrect = True\<rparr>]"

text \<open>
  Page 1 of the intensive mock book with the capture running: ten seconds in, and one
  second before the cap of 600 recorded seconds.
\<close>

definition tenSeconds :: Reader where
  "tenSeconds = (openedReader book_002 ''p1.mp4'')
      \<lparr>timersByPage := [1 \<mapsto> 10], pageTime := 10, recordedByPage := [1 \<mapsto> 10]\<rparr>"

definition almostCapped :: Reader where
  "almostCapped = (openedReader book_002 ''p1.mp4'')
      \<lparr>timersByPage := [1 \<mapsto> 650], pageTime := 650, recordedByPage := [1 \<mapsto> 599]\<rparr>"

text \<open>
  A screen mounting on a stored progress whose page 3 holds 600 recorded seconds and no
  \<^verbatim>\<open>isCapped\<close> flag.
\<close>

definition resumedOnPage3 :: Reader where
  "resumedOnPage3 =
     initialReader\<lparr>stored := Some ((startReadingWithBook book_002)
        \<lparr>bpCurrentPage := 3,
         pageTimers := [3 \<mapsto> \<lparr>pageNumber = 3, totalTime = 650, exceedanceCount = 0,
                               timerCompleted = True, recordedTotalSeconds = Some 600,
                               isCapped = None\<rparr>]\<rparr>)\<rparr>"

text \<open>
  The intensive mock book: page 1 read for 130 seconds, then the reader turns to
  page 2, where the capture starts with the stopwatch at zero.
\<close>

definition twoMinutesOnPage1 :: Reader where
  "twoMinutesOnPage1 = (openedReader book_002 ''p1.mp4'')
      \<lparr>timersByPage := [1 \<mapsto> 130], pageTime := 130, recordedByPage := [1 \<mapsto> 130]\<rparr>"

definition freshPage2 :: Reader where
  "freshPage2 = startRecordingEffect book_002 allSucceed
                  (handleNextPage book_002 allSucceed twoMinutesOnPage1)"

text \<open>
  A submit with two segments for page 1 and one for page 2: \<open>a\<close> and \<open>c\<close> are
  queued, \<open>b\<close> is being captured on page 1. And an outside world in which the file
  of \<open>b\<close> cannot be read.
\<close>

definition threeSegments :: Reader where
  "threeSegments = (openedReader book_002 ''b.mp4'')
      \<lparr>recordingsByPage := [(1, [''a.mp4'']), (2, [''c.mp4''])],
       timersByPage := [1 \<mapsto> 200, 2 \<mapsto> 150], pageTime := 200\<rparr>"

definition secondUploadFails :: Env where
  "secondUploadFails = allSucceed\<lparr>uploadResult := (\<lambda>p f. if f = ''b.mp4'' then BlobFails else Uploaded)\<rparr>"

section \<open>Helper lemmas\<close>

text \<open>Unfolding the model on a concrete state.\<close>

lemmas js_defs = get0_def isTrue_def orElse_def truthyStr_def segmentsOf_def

lemmas service_defs =
  recording_def stopRecording_def startRecording_def updateBookProgress_def mergeProgress_def
  mergePageTimer_def submitBook_def completeBook_def deleteAllUserBookAudio_def
  resetBookProgress_def storedReset_def

lemmas controller_defs =
  getTotalPages_def livePageTimers_def assignPageTimers_def stopCurrentRecording_def
  finalizePageTime_def persistCapForPage_def handleExtensiveReset_def tick_def
  overtimeEffect_def reachedCap_def loadProgress_def effectiveCap_def startRecordingForPage_def
  startRecordingEffect_def switchToPage_def handlePreviousPage_def handleNextPage_def
  handleBackPress_def

lemmas example_defs =
  book_002_def book_ext_001_def onePageBook_def threePageBook_def startReadingWithBook_def
  initialReader_def openedReader_def allSucceed_def

lemmas policy_examples =
  onlyPageOver_def firstPageOver_def afterLifeline_def secondPageOver_def bothPagesOver_def
  remount_def

lemmas run_defs = js_defs service_defs controller_defs example_defs Let_def split_beta

text \<open>What stopping the capture leaves untouched.\<close>

lemma stopRecording_recording:
  "stopUri env \<noteq> None \<Longrightarrow> \<not> recording (fst (stopRecording env s))"
  by (auto simp add: stopRecording_def recording_def split: option.splits)

lemma stopRecording_frame [simp]:
  "currentPage (fst (stopRecording env s)) = currentPage s"
  "progress (fst (stopRecording env s)) = progress s"
  "localAudioPath (fst (stopRecording env s)) = localAudioPath s"
  "recordingsByPage (fst (stopRecording env s)) = recordingsByPage s"
  "pageTime (fst (stopRecording env s)) = pageTime s"
  "timersByPage (fst (stopRecording env s)) = timersByPage s"
  "overtimeTriggered (fst (stopRecording env s)) = overtimeTriggered s"
  "recordingStopped (fst (stopRecording env s)) = recordingStopped s"
  "recordedByPage (fst (stopRecording env s)) = recordedByPage s"
  "cappedByPage (fst (stopRecording env s)) = cappedByPage s"
  "lifelineUsed (fst (stopRecording env s)) = lifelineUsed s"
  "exceededPages (fst (stopRecording env s)) = exceededPages s"
  "timeLimitVisible (fst (stopRecording env s)) = timeLimitVisible s"
  "isUploading (fst (stopRecording env s)) = isUploading s"
  "uploadProgress (fst (stopRecording env s)) = uploadProgress s"
  "progressTrace (fst (stopRecording env s)) = progressTrace s"
  "stored (fst (stopRecording env s)) = stored s"
  "remoteAudio (fst (stopRecording env s)) = remoteAudio s"
  by (simp_all add: stopRecording_def split: option.splits)

lemma startRecording_frame [simp]:
  "currentPage (fst (startRecording env s)) = currentPage s"
  "progress (fst (startRecording env s)) = progress s"
  "localAudioPath (fst (startRecording env s)) = localAudioPath s"
  "recordingsByPage (fst (startRecording env s)) = recordingsByPage s"
  "pageTime (fst (startRecording env s)) = pageTime s"
  "timersByPage (fst (startRecording env s)) = timersByPage s"
  "overtimeTriggered (fst (startRecording env s)) = overtimeTriggered s"
  "recordingStopped (fst (startRecording env s)) = recordingStopped s"
  "recordedByPage (fst (startRecording env s)) = recordedByPage s"
  "cappedByPage (fst (startRecording env s)) = cappedByPage s"
  "lifelineUsed (fst (startRecording env s)) = lifelineUsed s"
  "exceededPages (fst (startRecording env s)) = exceededPages s"
  "timeLimitVisible (fst (startRecording env s)) = timeLimitVisible s"
  "isUploading (fst (startRecording env s)) = isUploading s"
  "uploadProgress (fst (startRecording env s)) = uploadProgress s"
  "progressTrace (fst (startRecording env s)) = progressTrace s"
  "stored (fst (startRecording env s)) = stored s"
  "remoteAudio (fst (startRecording env s)) = remoteAudio s"
  by (simp_all add: startRecording_def Let_def split: option.splits)

lemma stopCurrentRecording_frame [simp]:
  "currentPage (fst (stopCurrentRecording env c s)) = currentPage s"
  "progress (fst (stopCurrentRecording env c s)) = progress s"
  "pageTime (fst (stopCurrentRecording env c s)) = pageTime s"
  "timersByPage (fst (stopCurrentRecording env c s)) = timersByPage s"
  "overtimeTriggered (fst (stopCurrentRecording env c s)) = overtimeTriggered s"
  "recordingStopped (fst (stopCurrentRecording env c s)) = recordingStopped s"
  "recordedByPage (fst (stopCurrentRecording env c s)) = recordedByPage s"
  "cappedByPage (fst (stopCurrentRecording env c s)) = cappedByPage s"
  "lifelineUsed (fst (stopCurrentRecording env c s)) = lifelineUsed s"
  "exceededPages (fst (stopCurrentRecording env c s)) = exceededPages s"
  "timeLimitVisible (fst (stopCurrentRecording env c s)) = timeLimitVisible s"
  "isUploading (fst (stopCurrentRecording env c s)) = isUploading s"
  "uploadProgress (fst (stopCurrentRecording env c s)) = uploadProgress s"
  "progressTrace (fst (stopCurrentRecording env c s)) = progressTrace s"
  "stored (fst (stopCurrentRecording env c s)) = stored s"
  "remoteAudio (fst (stopCurrentRecording env c s)) = remoteAudio s"
  by (simp_all add: stopCurrentRecording_def Let_def split_beta split: option.splits)

lemma finalizePageTime_frame [simp]:
  "currentPage (fst (finalizePageTime b env c s page)) = currentPage s"
  "localAudioPath (fst (finalizePageTime b env c s page)) = localAudioPath s"
  "recordingsByPage (fst (finalizePageTime b env c s page)) = recordingsByPage s"
  "pageTime (fst (finalizePageTime b env c s page)) = pageTime s"
  "timersByPage (fst (finalizePageTime b env c s page)) = timersByPage s"
  "overtimeTriggered (fst (finalizePageTime b env c s page)) = overtimeTriggered s"
  "recordingStopped (fst (finalizePageTime b env c s page)) = recordingStopped s"
  "recordedByPage (fst (finalizePageTime b env c s page)) = recordedByPage s"
  "cappedByPage (fst (finalizePageTime b env c s page)) = cappedByPage s"
  "lifelineUsed (fst (finalizePageTime b env c s page)) = lifelineUsed s"
  "exceededPages (fst (finalizePageTime b env c s page)) = exceededPages s"
  "timeLimitVisible (fst (finalizePageTime b env c s page)) = timeLimitVisible s"
  "isUploading (fst (finalizePageTime b env c s page)) = isUploading s"
  "uploadProgress (fst (finalizePageTime b env c s page)) = uploadProgress s"
  "progressTrace (fst (finalizePageTime b env c s page)) = progressTrace s"
  "session (fst (finalizePageTime b env c s page)) = session s"
  "remoteAudio (fst (finalizePageTime b env c s page)) = remoteAudio s"
  by (simp_all add: finalizePageTime_def updateBookProgress_def assignPageTimers_def Let_def split: option.splits)

lemma persistCapForPage_frame [simp]:
  "currentPage (persistCapForPage b env c s page r) = currentPage s"
  "localAudioPath (persistCapForPage b env c s page r) = localAudioPath s"
  "recordingsByPage (persistCapForPage b env c s page r) = recordingsByPage s"
  "pageTime (persistCapForPage b env c s page r) = pageTime s"
  "timersByPage (persistCapForPage b env c s page r) = timersByPage s"
  "overtimeTriggered (persistCapForPage b env c s page r) = overtimeTriggered s"
  "recordingStopped (persistCapForPage b env c s page r) = recordingStopped s"
  "recordedByPage (persistCapForPage b env c s page r) = recordedByPage s"
  "cappedByPage (persistCapForPage b env c s page r) = cappedByPage s"
  "lifelineUsed (persistCapForPage b env c s page r) = lifelineUsed s"
  "exceededPages (persistCapForPage b env c s page r) = exceededPages s"
  "timeLimitVisible (persistCapForPage b env c s page r) = timeLimitVisible s"
  "isUploading (persistCapForPage b env c s page r) = isUploading s"
  "uploadProgress (persistCapForPage b env c s page r) = uploadProgress s"
  "progressTrace (persistCapForPage b env c s page r) = progressTrace s"
  "session (persistCapForPage b env c s page r) = session s"
  "remoteAudio (persistCapForPage b env c s page r) = remoteAudio s"
  by (simp_all add: persistCapForPage_def updateBookProgress_def assignPageTimers_def Let_def split: option.splits)

lemma stopCurrentRecording_session [simp]:
  "session (fst (stopCurrentRecording env c s)) = session (fst (stopRecording env s))"
  by (simp add: stopCurrentRecording_def Let_def split_beta split: option.splits)

lemma recording_cong: "session s = session s' \<Longrightarrow> recording s = recording s'"
  by (simp add: recording_def)

lemma stopCurrentRecording_recording:
  "stopUri env \<noteq> None \<Longrightarrow> \<not> recording (fst (stopCurrentRecording env c s))"
  using stopRecording_recording [of env s] recording_cong [OF stopCurrentRecording_session]
  by simp

text \<open>The reset when its two calls succeed, and the three branches of the overtime effect.\<close>

lemma handleExtensiveReset_ok:
  assumes "deleteOk env" "resetOk env"
  shows "handleExtensiveReset env s
       = (fst (stopRecording env s))\<lparr>
           remoteAudio := [],
           stored := map_option storedReset (stored s),
           timersByPage := Map.empty, recordedByPage := Map.empty, exceededPages := Map.empty,
           cappedByPage := Map.empty, lifelineUsed := False, timeLimitVisible := True\<rparr>"
  using assms
  by (simp add: handleExtensiveReset_def deleteAllUserBookAudio_def resetBookProgress_def Let_def)

lemma reset_after_stop:
  assumes "deleteOk env" "resetOk env" "stopUri env \<noteq> None"
  shows "sessionCleared (handleExtensiveReset env (fst (stopCurrentRecording env c s)))
       \<and> remoteAudio (handleExtensiveReset env (fst (stopCurrentRecording env c s))) = []
       \<and> \<not> recording (handleExtensiveReset env (fst (stopCurrentRecording env c s)))"
proof -
  have r: "\<not> recording (fst (stopRecording env (fst (stopCurrentRecording env c s))))"
    using assms(3) by (rule stopRecording_recording)
  show ?thesis
    using r by (simp add: handleExtensiveReset_ok assms sessionCleared_def recording_def)
qed

lemma overtimeEffect_one_page:
  assumes "category b = Extensive" "getTotalPages b s = 1"
      "get0 (timersByPage s) (currentPage s) \<ge> 420" "\<not> isTrue (exceededPages s) (currentPage s)"
  shows "overtimeEffect b env s
       = handleExtensiveReset env (fst (stopCurrentRecording env s
            (s\<lparr>exceededPages := (exceededPages s)(currentPage s \<mapsto> True)\<rparr>)))"
  using assms by (simp add: overtimeEffect_def Let_def)

lemma overtimeEffect_second_page:
  assumes "category b = Extensive" "getTotalPages b s = 2"
      "get0 (timersByPage s) (currentPage s) \<ge> 420" "\<not> isTrue (exceededPages s) (currentPage s)"
      "isTrue (exceededPages s) 1 \<or> isTrue (exceededPages s) 2"
  shows "overtimeEffect b env s
       = handleExtensiveReset env (fst (stopCurrentRecording env s
            (s\<lparr>exceededPages := (exceededPages s)(currentPage s \<mapsto> True)\<rparr>)))"
  using assms by (auto simp add: overtimeEffect_def Let_def)

lemma overtimeEffect_lifeline:
  assumes "category b = Extensive" "getTotalPages b s = 2"
      "get0 (timersByPage s) (currentPage s) \<ge> 420" "\<not> isTrue (exceededPages s) (currentPage s)"
      "\<not> isTrue (exceededPages s) 1" "\<not> isTrue (exceededPages s) 2"
      "\<not> lifelineUsed s" "stopUri env \<noteq> None"
  shows "lifelineUsed (overtimeEffect b env s)
       \<and> isTrue (cappedByPage (overtimeEffect b env s)) (currentPage s)
       \<and> isTrue (exceededPages (overtimeEffect b env s)) (currentPage s)
       \<and> \<not> recording (overtimeEffect b env s)
       \<and> currentPage (overtimeEffect b env s) = currentPage s
       \<and> timersByPage (overtimeEffect b env s) = timersByPage s
       \<and> remoteAudio (overtimeEffect b env s) = remoteAudio s
       \<and> timeLimitVisible (overtimeEffect b env s) = timeLimitVisible s"
proof -
  let ?s2 = "s\<lparr>exceededPages := (exceededPages s)(currentPage s \<mapsto> True),
               lifelineUsed := True,
               cappedByPage := (cappedByPage s)(currentPage s \<mapsto> True)\<rparr>"
  let ?s3 = "fst (stopCurrentRecording env s ?s2)"
  let ?f = "finalizePageTime b env s ?s3 (currentPage s)"
  have eff: "overtimeEffect b env s
      = (case snd ?f of None \<Rightarrow> fst ?f
         | Some u \<Rightarrow> (case updateBookProgress env (u\<lparr>bpLifelineUsed := Some True\<rparr>)
                              ((fst ?f)\<lparr>progress := Some (u\<lparr>bpLifelineUsed := Some True\<rparr>)\<rparr>) of
                        None \<Rightarrow> (fst ?f)\<lparr>progress := Some (u\<lparr>bpLifelineUsed := Some True\<rparr>)\<rparr>
                      | Some s6 \<Rightarrow> s6))"
    using assms by (simp add: overtimeEffect_def Let_def split_beta)
  have nr: "\<not> recording ?s3"
    using assms(8) by (rule stopCurrentRecording_recording)
  have sess: "session (overtimeEffect b env s) = session ?s3"
    unfolding eff by (simp add: updateBookProgress_def split: option.splits)
  have "\<not> recording (overtimeEffect b env s)"
    using nr recording_cong [OF sess] by simp
  moreover have "lifelineUsed (overtimeEffect b env s)"
    unfolding eff by (simp add: updateBookProgress_def split: option.splits)
  moreover have "cappedByPage (overtimeEffect b env s) = (cappedByPage s)(currentPage s \<mapsto> True)"
    unfolding eff by (simp add: updateBookProgress_def split: option.splits)
  moreover have "exceededPages (overtimeEffect b env s) = (exceededPages s)(currentPage s \<mapsto> True)"
    unfolding eff by (simp add: updateBookProgress_def split: option.splits)
  moreover have "currentPage (overtimeEffect b env s) = currentPage s"
    unfolding eff by (simp add: updateBookProgress_def split: option.splits)
  moreover have "timersByPage (overtimeEffect b env s) = timersByPage s"
    unfolding eff by (simp add: updateBookProgress_def split: option.splits)
  moreover have "remoteAudio (overtimeEffect b env s) = remoteAudio s"
    unfolding eff by (simp add: updateBookProgress_def split: option.splits)
  moreover have "timeLimitVisible (overtimeEffect b env s) = timeLimitVisible s"
    unfolding eff by (simp add: updateBookProgress_def split: option.splits)
  ultimately show ?thesis by (simp add: isTrue_def)
qed

text \<open>The extensive policy on books of three pages or more.\<close>

lemma overtimeEffect_three_pages:
  assumes "category b = Extensive" "getTotalPages b s \<ge> 3"
  shows "overtimeEffect b env s = s"
  using assms by (simp add: overtimeEffect_def Let_def)

lemma tick_extensive:
  assumes "category b = Extensive"
  shows "tick b env c s
         = s\<lparr>timersByPage := (timersByPage s)(currentPage c \<mapsto> get0 (timersByPage s) (currentPage c) + 1),
             pageTime := get0 (timersByPage s) (currentPage c) + 1\<rparr>"
  using assms by (simp add: tick_def Let_def)

lemma startRecordingForPage_extensive_over:
  assumes "category b = Extensive" "get0 (timersByPage c) p \<ge> 420"
  shows "startRecordingForPage b env c s p = s\<lparr>cappedByPage := (cappedByPage s)(p \<mapsto> True)\<rparr>"
  using assms by (simp add: startRecordingForPage_def Let_def)

lemma stickersArray_Some: "stickersArray (Some xs) = xs"
  by (simp add: stickersArray_def)

lemma find_after_append:
  "\<exists>y. find (\<lambda>s. stickerId s = stickerId st) (xs @ [st\<lparr>earnedAt := e\<rparr>]) = Some y"
  by (cases "find (\<lambda>s. stickerId s = stickerId st) (xs @ [st\<lparr>earnedAt := e\<rparr>])")
     (auto simp add: find_None_iff)

lemma award_present:
  assumes "userStickers db uid = Some field"
    and "find (\<lambda>s. stickerId s = stickerId st) (stickersArray field) = Some y"
  shows "awardSticker ok t uid st db = db"
  using assms by (simp add: awardSticker_def)

lemma award_absent:
  assumes "userStickers db uid = Some field"
    and "find (\<lambda>s. stickerId s = stickerId st) (stickersArray field) = None"
  shows "awardSticker True t uid st db
       = db\<lparr>userStickers := (userStickers db)(uid \<mapsto> Some (stickersArray field @ [st\<lparr>earnedAt := Some t\<rparr>]))\<rparr>"
  using assms by (simp add: awardSticker_def)

text \<open>After a successful award the sticker is found in the user's list.\<close>

lemma award_then_found:
  assumes "userStickers db uid = Some field"
  shows "\<exists>field' y. userStickers (awardSticker True t uid st db) uid = Some field'
           \<and> find (\<lambda>s. stickerId s = stickerId st) (stickersArray field') = Some y"
proof (cases "find (\<lambda>s. stickerId s = stickerId st) (stickersArray field)")
  case None
  obtain y where "find (\<lambda>s. stickerId s = stickerId st)
         (stickersArray field @ [st\<lparr>earnedAt := Some t\<rparr>]) = Some y"
    using find_after_append by blast
  then show ?thesis
    by (simp add: award_absent [OF assms None] stickersArray_Some)
next
  case (Some y)
  then show ?thesis using assms by (simp add: award_present [OF assms Some])
qed

lemma award_count:
  assumes "userStickers db uid = Some field"
  shows "countSticker (stickerId st) (stickersOfUser (awardSticker True t uid st db) uid)
       = max 1 (countSticker (stickerId st) (stickersOfUser db uid))"
proof (cases "find (\<lambda>s. stickerId s = stickerId st) (stickersArray field)")
  case None
  then have "filter (\<lambda>s. stickerId s = stickerId st) (stickersArray field) = []"
    by (simp add: find_None_iff filter_empty_conv)
  then show ?thesis
    by (simp add: award_absent [OF assms None] stickersOfUser_def countSticker_def assms
          stickersArray_Some)
next
  case (Some y)
  then have "y \<in> set (filter (\<lambda>s. stickerId s = stickerId st) (stickersArray field))"
    by (auto simp add: find_Some_iff)
  then have "length (filter (\<lambda>s. stickerId s = stickerId st) (stickersArray field)) \<ge> 1"
    by (metis One_nat_def Suc_leI length_pos_if_in_set)
  then show ?thesis
    by (simp add: award_present [OF assms Some] stickersOfUser_def countSticker_def assms)
qed

lemma userStickers_saveQuizResult:
  "userStickers (saveQuizResult ok uid bid r db) = userStickers db"
  by (simp add: saveQuizResult_def)

lemma stickersOfUser_saveQuizResult:
  "stickersOfUser (saveQuizResult ok uid bid r db) = stickersOfUser db"
  by (simp add: stickersOfUser_def userStickers_saveQuizResult fun_eq_iff)

lemma userStickers_award_cong:
  "userStickers db = userStickers db'
   \<Longrightarrow> userStickers (awardSticker a t uid st db) = userStickers (awardSticker a t uid st db')"
  by (simp add: awardSticker_def Let_def split: option.splits)

lemma stickersOfUser_cong:
  "userStickers db = userStickers db' \<Longrightarrow> stickersOfUser db uid = stickersOfUser db' uid"
  by (simp add: stickersOfUser_def)

lemma userStickers_completeQuiz:
  "userStickers (completeQuiz s a t uid b n log db)
   = (if n \<le> length (filter isCorrect log)
      then userStickers (awardSticker a t uid (stickerFor b) db)
      else userStickers db)"
  unfolding completeQuiz_def Let_def
  using userStickers_award_cong [OF userStickers_saveQuizResult]
  by (simp add: userStickers_saveQuizResult)

text \<open>A screen that mounts on a progress just reset.\<close>

lemma loadProgress_after_reset:
  assumes "stored s = Some (storedReset d)"
  shows "currentPage (loadProgress b (remount s)) = 1
       \<and> timersByPage (loadProgress b (remount s)) = Map.empty
       \<and> recordedByPage (loadProgress b (remount s)) = Map.empty
       \<and> cappedByPage (loadProgress b (remount s)) = Map.empty
       \<and> exceededPages (loadProgress b (remount s)) = Map.empty
       \<and> \<not> lifelineUsed (loadProgress b (remount s))"
  using assms
  by (simp add: loadProgress_def remount_def initialReader_def storedReset_def Let_def get0_def)

text \<open>One tick on an intensive page, case by case.\<close>

lemma intensive_tick_below:
  assumes "category b = Intensive" "recording s" "\<not> isTrue (cappedByPage s) (currentPage s)"
    "get0 (recordedByPage s) (currentPage s) < 599"
  shows "tick b env s s
       = s\<lparr>timersByPage := (timersByPage s)(currentPage s \<mapsto> get0 (timersByPage s) (currentPage s) + 1),
           pageTime := get0 (timersByPage s) (currentPage s) + 1,
           recordedByPage := (recordedByPage s)(currentPage s \<mapsto> get0 (recordedByPage s) (currentPage s) + 1)\<rparr>"
  using assms by (simp add: tick_def Let_def)

lemma intensive_tick_no_count:
  assumes "category b = Intensive"
    "isTrue (cappedByPage s) (currentPage s) \<or> \<not> recording s \<or> get0 (recordedByPage s) (currentPage s) \<ge> 600"
  shows "recordedByPage (tick b env s s) = recordedByPage s"
  using assms by (auto simp add: tick_def Let_def)

lemma intensive_tick_cap:
  assumes "category b = Intensive" "recording s" "\<not> isTrue (cappedByPage s) (currentPage s)"
    "get0 (recordedByPage s) (currentPage s) = 599"
  shows "tick b env s s
       = persistCapForPage b env s
           ((fst (stopRecording env
               (s\<lparr>timersByPage := (timersByPage s)(currentPage s \<mapsto> get0 (timersByPage s) (currentPage s) + 1),
                  pageTime := get0 (timersByPage s) (currentPage s) + 1,
                  recordedByPage := (recordedByPage s)(currentPage s \<mapsto> 600)\<rparr>)))
              \<lparr>cappedByPage := (cappedByPage s)(currentPage s \<mapsto> True), recordingStopped := True\<rparr>)
           (currentPage s) 600"
  using assms by (simp add: tick_def Let_def)

lemma persistCapForPage_stored:
  assumes "storeOk env"
  shows "\<exists>d t. stored (persistCapForPage b env c s page r) = Some d \<and> pageTimers d page = Some t
       \<and> isCapped t = Some True \<and> recordedTotalSeconds t = Some (min 600 r)
       \<and> totalTime t = (case timersByPage c page of Some v \<Rightarrow> v
                          | None \<Rightarrow> (case livePageTimers c s page of None \<Rightarrow> 0 | Some t \<Rightarrow> totalTime t))"
  using assms
  by (simp add: persistCapForPage_def updateBookProgress_def Let_def mergeProgress_def mergePageTimer_def
      split: option.splits)

text \<open>Resuming: what \<^verbatim>\<open>loadProgress\<close> seeds, and when no capture is started.\<close>

lemma loadProgress_capped:
  assumes "stored s = Some up" "pageTimers up p = Some t" "reachedCap t"
  shows "cappedByPage (loadProgress b s) p = Some True"
  using assms
  by (simp add: loadProgress_def Let_def map_add_def split: option.splits)

lemma loadProgress_frame:
  "session (loadProgress b s) = session s"
  "stored (loadProgress b s) = stored s"
  by (simp_all add: loadProgress_def Let_def split: option.splits)

lemma loadProgress_progress:
  "stored s = Some up \<Longrightarrow> progress (loadProgress b s) = Some up"
  by (simp add: loadProgress_def Let_def)

lemma startRecordingForPage_intensive_refuses:
  assumes "category b = Intensive" "isTrue (cappedByPage c) p"
  shows "session (startRecordingForPage b env c s p) = session s"
  using assms by (simp add: startRecordingForPage_def effectiveCap_def Let_def)

lemma startRecordingForPage_extensive_refuses:
  assumes "category b = Extensive" "progress c = Some up" "progress s = Some up"
     "pageTimers up p = Some t" "totalTime t \<ge> 420"
  shows "session (startRecordingForPage b env c s p) = session s"
  using assms by (simp add: startRecordingForPage_def livePageTimers_def Let_def)

text \<open>Six hundred ticks on a fresh page, up to the one that caps.\<close>

lemma ticks_end: "ticks (Suc n) b env s = tick b env (ticks n b env s) (ticks n b env s)"
  by (induction n arbitrary: s) simp_all

lemma ticks_below:
  assumes "category b = Intensive"
  shows "recording s \<Longrightarrow> \<not> isTrue (cappedByPage s) (currentPage s)
     \<Longrightarrow> timersByPage s (currentPage s) = Some t \<Longrightarrow> recordedByPage s (currentPage s) = Some r
     \<Longrightarrow> pageTime s = t \<Longrightarrow> r + int n \<le> 599
     \<Longrightarrow> ticks n b env s
         = s\<lparr>timersByPage := (timersByPage s)(currentPage s \<mapsto> t + int n),
             pageTime := t + int n,
             recordedByPage := (recordedByPage s)(currentPage s \<mapsto> r + int n)\<rparr>"
proof (induction n arbitrary: s t r)
  case 0
  then show ?case by (simp add: map_upd_triv)
next
  case (Suc n)
  let ?s1 = "s\<lparr>timersByPage := (timersByPage s)(currentPage s \<mapsto> t + 1),
           pageTime := t + 1,
           recordedByPage := (recordedByPage s)(currentPage s \<mapsto> r + 1)\<rparr>"
  have a: "t + 1 + int n = t + int (Suc n)" "r + 1 + int n = r + int (Suc n)"
    by simp_all
  have lt: "get0 (recordedByPage s) (currentPage s) < 599"
    using Suc.prems by (simp add: get0_def)
  have step: "tick b env s s = ?s1"
    using intensive_tick_below [OF assms Suc.prems(1,2) lt] Suc.prems(3,4) by (simp add: get0_def)
  have ih0: "ticks n b env ?s1
         = ?s1\<lparr>timersByPage := (timersByPage ?s1)(currentPage ?s1 \<mapsto> (t + 1) + int n),
             pageTime := (t + 1) + int n,
             recordedByPage := (recordedByPage ?s1)(currentPage ?s1 \<mapsto> (r + 1) + int n)\<rparr>"
    using Suc.prems by (intro Suc.IH) (simp_all add: recording_def)
  have ih: "ticks n b env ?s1
         = s\<lparr>timersByPage := (timersByPage s)(currentPage s \<mapsto> t + int (Suc n)),
             pageTime := t + int (Suc n),
             recordedByPage := (recordedByPage s)(currentPage s \<mapsto> r + int (Suc n))\<rparr>"
    unfolding ih0 a by simp
  show ?case
    unfolding ticks.simps step by (rule ih)
qed

lemma freshPage2_facts: "currentPage freshPage2 = 2" "timersByPage freshPage2 2 = Some 0"
   "recordedByPage freshPage2 2 = Some 0" "pageTime freshPage2 = 0"
   "recording freshPage2" "\<not> isTrue (cappedByPage freshPage2) 2"
  by code_simp+

lemma ticks_599_freshPage2: "ticks 599 book_002 allSucceed freshPage2
   = freshPage2\<lparr>timersByPage := (timersByPage freshPage2)(2 \<mapsto> 599), pageTime := 599,
        recordedByPage := (recordedByPage freshPage2)(2 \<mapsto> 599)\<rparr>"
  using ticks_below [of book_002 freshPage2 0 0 599 allSucceed] freshPage2_facts
  by (simp add: book_002_def)

text \<open>What the upload loops leave untouched, what they upload, and when they succeed.\<close>

lemma setUploadProgress_frame [simp]:
  "currentPage (setUploadProgress v s) = currentPage s"
  "progress (setUploadProgress v s) = progress s"
  "localAudioPath (setUploadProgress v s) = localAudioPath s"
  "recordingsByPage (setUploadProgress v s) = recordingsByPage s"
  "pageTime (setUploadProgress v s) = pageTime s"
  "timersByPage (setUploadProgress v s) = timersByPage s"
  "overtimeTriggered (setUploadProgress v s) = overtimeTriggered s"
  "recordingStopped (setUploadProgress v s) = recordingStopped s"
  "recordedByPage (setUploadProgress v s) = recordedByPage s"
  "cappedByPage (setUploadProgress v s) = cappedByPage s"
  "lifelineUsed (setUploadProgress v s) = lifelineUsed s"
  "exceededPages (setUploadProgress v s) = exceededPages s"
  "timeLimitVisible (setUploadProgress v s) = timeLimitVisible s"
  "isUploading (setUploadProgress v s) = isUploading s"
  "session (setUploadProgress v s) = session s"
  "stored (setUploadProgress v s) = stored s"
  "remoteAudio (setUploadProgress v s) = remoteAudio s"
  by (simp_all add: setUploadProgress_def)

lemma reports_frame [simp]:
  "currentPage (foldl (\<lambda>st p. setUploadProgress (g p) st) s ps) = currentPage s"
  "progress (foldl (\<lambda>st p. setUploadProgress (g p) st) s ps) = progress s"
  "localAudioPath (foldl (\<lambda>st p. setUploadProgress (g p) st) s ps) = localAudioPath s"
  "recordingsByPage (foldl (\<lambda>st p. setUploadProgress (g p) st) s ps) = recordingsByPage s"
  "pageTime (foldl (\<lambda>st p. setUploadProgress (g p) st) s ps) = pageTime s"
  "timersByPage (foldl (\<lambda>st p. setUploadProgress (g p) st) s ps) = timersByPage s"
  "overtimeTriggered (foldl (\<lambda>st p. setUploadProgress (g p) st) s ps) = overtimeTriggered s"
  "recordingStopped (foldl (\<lambda>st p. setUploadProgress (g p) st) s ps) = recordingStopped s"
  "recordedByPage (foldl (\<lambda>st p. setUploadProgress (g p) st) s ps) = recordedByPage s"
  "cappedByPage (foldl (\<lambda>st p. setUploadProgress (g p) st) s ps) = cappedByPage s"
  "lifelineUsed (foldl (\<lambda>st p. setUploadProgress (g p) st) s ps) = lifelineUsed s"
  "exceededPages (foldl (\<lambda>st p. setUploadProgress (g p) st) s ps) = exceededPages s"
  "timeLimitVisible (foldl (\<lambda>st p. setUploadProgress (g p) st) s ps) = timeLimitVisible s"
  "isUploading (foldl (\<lambda>st p. setUploadProgress (g p) st) s ps) = isUploading s"
  "session (foldl (\<lambda>st p. setUploadProgress (g p) st) s ps) = session s"
  "stored (foldl (\<lambda>st p. setUploadProgress (g p) st) s ps) = stored s"
  "remoteAudio (foldl (\<lambda>st p. setUploadProgress (g p) st) s ps) = remoteAudio s"
  by (induction ps arbitrary: s) simp_all

lemma uploadSegment_frame [simp]:
  "currentPage (fst (uploadSegment env n base p f s)) = currentPage s"
  "progress (fst (uploadSegment env n base p f s)) = progress s"
  "localAudioPath (fst (uploadSegment env n base p f s)) = localAudioPath s"
  "recordingsByPage (fst (uploadSegment env n base p f s)) = recordingsByPage s"
  "pageTime (fst (uploadSegment env n base p f s)) = pageTime s"
  "timersByPage (fst (uploadSegment env n base p f s)) = timersByPage s"
  "overtimeTriggered (fst (uploadSegment env n base p f s)) = overtimeTriggered s"
  "recordingStopped (fst (uploadSegment env n base p f s)) = recordingStopped s"
  "recordedByPage (fst (uploadSegment env n base p f s)) = recordedByPage s"
  "cappedByPage (fst (uploadSegment env n base p f s)) = cappedByPage s"
  "lifelineUsed (fst (uploadSegment env n base p f s)) = lifelineUsed s"
  "exceededPages (fst (uploadSegment env n base p f s)) = exceededPages s"
  "timeLimitVisible (fst (uploadSegment env n base p f s)) = timeLimitVisible s"
  "isUploading (fst (uploadSegment env n base p f s)) = isUploading s"
  "session (fst (uploadSegment env n base p f s)) = session s"
  "stored (fst (uploadSegment env n base p f s)) = stored s"
  by (simp_all add: uploadSegment_def Let_def)

lemma uploadSegments_frame [simp]:
  "currentPage (fst (uploadSegments env n p fs k s)) = currentPage s"
  "progress (fst (uploadSegments env n p fs k s)) = progress s"
  "localAudioPath (fst (uploadSegments env n p fs k s)) = localAudioPath s"
  "recordingsByPage (fst (uploadSegments env n p fs k s)) = recordingsByPage s"
  "pageTime (fst (uploadSegments env n p fs k s)) = pageTime s"
  "timersByPage (fst (uploadSegments env n p fs k s)) = timersByPage s"
  "overtimeTriggered (fst (uploadSegments env n p fs k s)) = overtimeTriggered s"
  "recordingStopped (fst (uploadSegments env n p fs k s)) = recordingStopped s"
  "recordedByPage (fst (uploadSegments env n p fs k s)) = recordedByPage s"
  "cappedByPage (fst (uploadSegments env n p fs k s)) = cappedByPage s"
  "lifelineUsed (fst (uploadSegments env n p fs k s)) = lifelineUsed s"
  "exceededPages (fst (uploadSegments env n p fs k s)) = exceededPages s"
  "timeLimitVisible (fst (uploadSegments env n p fs k s)) = timeLimitVisible s"
  "isUploading (fst (uploadSegments env n p fs k s)) = isUploading s"
  "session (fst (uploadSegments env n p fs k s)) = session s"
  "stored (fst (uploadSegments env n p fs k s)) = stored s"
  by (induction fs arbitrary: k s) (simp_all add: Let_def split_beta)

lemma uploadPages_frame [simp]:
  "currentPage (fst (uploadPages env n m ps k s)) = currentPage s"
  "progress (fst (uploadPages env n m ps k s)) = progress s"
  "localAudioPath (fst (uploadPages env n m ps k s)) = localAudioPath s"
  "recordingsByPage (fst (uploadPages env n m ps k s)) = recordingsByPage s"
  "pageTime (fst (uploadPages env n m ps k s)) = pageTime s"
  "timersByPage (fst (uploadPages env n m ps k s)) = timersByPage s"
  "overtimeTriggered (fst (uploadPages env n m ps k s)) = overtimeTriggered s"
  "recordingStopped (fst (uploadPages env n m ps k s)) = recordingStopped s"
  "recordedByPage (fst (uploadPages env n m ps k s)) = recordedByPage s"
  "cappedByPage (fst (uploadPages env n m ps k s)) = cappedByPage s"
  "lifelineUsed (fst (uploadPages env n m ps k s)) = lifelineUsed s"
  "exceededPages (fst (uploadPages env n m ps k s)) = exceededPages s"
  "timeLimitVisible (fst (uploadPages env n m ps k s)) = timeLimitVisible s"
  "isUploading (fst (uploadPages env n m ps k s)) = isUploading s"
  "session (fst (uploadPages env n m ps k s)) = session s"
  "stored (fst (uploadPages env n m ps k s)) = stored s"
  by (induction ps arbitrary: k s) (simp_all add: Let_def split_beta)

lemma uploadSegment_remote:
  "remoteAudio (fst (uploadSegment env n base p f s))
   = remoteAudio s @ (if uploadedOk env (p, f) then [(p, f)] else [])"
  "snd (uploadSegment env n base p f s) = uploadedOk env (p, f)"
  by (simp_all add: uploadSegment_def uploadedOk_def Let_def)

lemma uploadSegments_remote:
  "remoteAudio (fst (uploadSegments env n p fs k s))
   = remoteAudio s @ takeWhile (uploadedOk env) (map (Pair p) fs)"
  by (induction fs arbitrary: k s) (simp_all add: Let_def split_beta uploadSegment_remote)

lemma uploadSegments_success:
  "snd (snd (uploadSegments env n p fs k s)) = list_all (uploadedOk env) (map (Pair p) fs)"
  by (induction fs arbitrary: k s) (simp_all add: Let_def split_beta uploadSegment_remote)

lemma takeWhile_append_all:
  "takeWhile P (xs @ ys) = (if list_all P xs then xs @ takeWhile P ys else takeWhile P xs)"
  by (induction xs) simp_all

lemma uploadOrder_Nil: "uploadOrder m [] = []"
  by (simp add: uploadOrder_def)

lemma uploadOrder_Cons:
  "uploadOrder m (p # ps) = map (Pair p) (segmentsOf m p) @ uploadOrder m ps"
  by (simp add: uploadOrder_def)

lemma uploadPages_remote:
  "remoteAudio (fst (uploadPages env n m ps k s))
   = remoteAudio s @ takeWhile (uploadedOk env) (uploadOrder m ps)"
proof (induction ps arbitrary: k s)
  case Nil
  then show ?case by (simp add: uploadOrder_Nil)
next
  case (Cons p ps)
  show ?case
    unfolding uploadOrder_Cons takeWhile_append_all
    by (simp add: Let_def split_beta Cons.IH uploadSegments_remote uploadSegments_success
          list_all_iff)
qed

lemma uploadPages_success:
  "snd (uploadPages env n m ps k s) = list_all (uploadedOk env) (uploadOrder m ps)"
proof (induction ps arbitrary: k s)
  case Nil
  then show ?case by (simp add: uploadOrder_Nil)
next
  case (Cons p ps)
  show ?case
    unfolding uploadOrder_Cons list_all_append
    by (simp add: Let_def split_beta Cons.IH uploadSegments_success)
qed

lemma stopCurrentRecording_path:
  "snd (stopCurrentRecording env c s) = snd (stopRecording env s)"
  by (simp add: stopCurrentRecording_def Let_def split_beta split: option.splits)

lemma stopRecording_path_cong:
  "session s = session s' \<Longrightarrow> snd (stopRecording env s) = snd (stopRecording env s')"
  by (simp add: stopRecording_def split: option.splits)

lemma stopCurrentRecording_queue:
  "recordingsByPage (fst (stopCurrentRecording env c s))
   = (case snd (stopRecording env s) of
        None \<Rightarrow> recordingsByPage s
      | Some f \<Rightarrow> AList.update (currentPage c) (segmentsOf (recordingsByPage s) (currentPage c) @ [f])
                    (recordingsByPage s))"
  by (simp add: stopCurrentRecording_def Let_def split_beta split: option.splits)

lemma handleMandatoryUpload_frame:
  "stored (handleMandatoryUpload env c s) = stored s"
  "progress (handleMandatoryUpload env c s) = progress s"
  "currentPage (handleMandatoryUpload env c s) = currentPage s"
  "timersByPage (handleMandatoryUpload env c s) = timersByPage s"
  "\<not> isUploading (handleMandatoryUpload env c s)"
  by (simp_all add: handleMandatoryUpload_def Let_def split_beta)

lemma handleMandatoryUpload_remote:
  "remoteAudio (handleMandatoryUpload env c s)
   = remoteAudio s
     @ takeWhile (uploadedOk env)
         (uploadOrder (localMapOf c (snd (stopRecording env s)))
            (sort (map fst (localMapOf c (snd (stopRecording env s))))))"
proof -
  have p: "snd (stopCurrentRecording env c (setUploadProgress 0 (s\<lparr>isUploading := True\<rparr>)))
         = snd (stopRecording env s)"
    unfolding stopCurrentRecording_path
    by (rule stopRecording_path_cong) simp
  show ?thesis
    by (simp add: handleMandatoryUpload_def Let_def split_beta p uploadPages_remote
          uploadOrder_def)
qed

lemma handleMandatoryUpload_failed_queue:
  assumes "\<not> list_all (uploadedOk env)
         (uploadOrder (localMapOf c (snd (stopRecording env s)))
            (sort (map fst (localMapOf c (snd (stopRecording env s))))))"
  shows "recordingsByPage (handleMandatoryUpload env c s)
       = recordingsByPage (fst (stopCurrentRecording env c s))"
proof -
  have p: "snd (stopCurrentRecording env c (setUploadProgress 0 (s\<lparr>isUploading := True\<rparr>)))
         = snd (stopRecording env s)"
    unfolding stopCurrentRecording_path
    by (rule stopRecording_path_cong) simp
  have q: "recordingsByPage (fst (stopCurrentRecording env c (setUploadProgress 0 (s\<lparr>isUploading := True\<rparr>))))
         = recordingsByPage (fst (stopCurrentRecording env c s))"
    unfolding stopCurrentRecording_queue
    using stopRecording_path_cong [of "setUploadProgress 0 (s\<lparr>isUploading := True\<rparr>)" s env]
    by (simp split: option.splits)
  show ?thesis
    using assms
    by (simp add: handleMandatoryUpload_def Let_def split_beta p q uploadPages_success
          uploadOrder_def)
qed


lemma segmentsOf_update:
  "segmentsOf (AList.update k v al) p = (if p = k then v else segmentsOf al p)"
  by (simp add: segmentsOf_def update_conv')

lemma uploadOrder_member:
  "x \<in> set (uploadOrder m ps) \<Longrightarrow> snd x \<in> set (segmentsOf m (fst x))"
  by (auto simp add: uploadOrder_def)

lemma localMap_in_queue:
  "f \<in> set (segmentsOf (localMapOf s (snd (stopRecording env s))) p)
   \<Longrightarrow> f \<in> set (segmentsOf (recordingsByPage (fst (stopCurrentRecording env s s))) p)"
  by (auto simp add: localMapOf_def stopCurrentRecording_queue segmentsOf_update Let_def
        split: option.splits if_splits)

text \<open>
  The submit of the three segments when every upload succeeds: the order of the
  uploads, the progress values reported, the stored flag and the emptied segment map.
\<close>

lemma submit_in_progress_all_uploaded:
  "remoteAudio (handleSubmitInProgress book_002 allSucceed threeSegments)
     = [(1, ''a.mp4''), (1, ''b.mp4''), (2, ''c.mp4'')]
   \<and> progressTrace (handleSubmitInProgress book_002 allSucceed threeSegments)
     = [0, 3, 6, 13, 30, 33, 36, 39, 46, 63, 66, 69, 72, 79, 96, 99, 100]
   \<and> map_option isSubmitted (stored (handleSubmitInProgress book_002 allSucceed threeSegments)) = Some True
   \<and> recordingsByPage (handleSubmitInProgress book_002 allSucceed threeSegments) = []"
  by code_simp

text \<open>
  Stopwatches under ticks and page turns. A page turn takes the stopwatch of the page
  entered from the saved entry when that is not zero; by the invariant the two agree, so
  no stopwatch ever decreases in a run that starts from a freshly loaded session.
\<close>

lemma livePageTimers_self: "livePageTimers s s p = entryOf s p"
  by (simp add: livePageTimers_def entryOf_def split: option.splits)

lemma livePageTimers_cases:
  "livePageTimers c s p = None \<or> livePageTimers c s p = entryOf s p"
  by (simp add: livePageTimers_def entryOf_def split: option.splits)

lemma entryOf_cong: "progress s = progress s' \<Longrightarrow> entryOf s p = entryOf s' p"
  by (simp add: entryOf_def)

lemma persistCapForPage_entry:
  "q \<noteq> page \<Longrightarrow> entryOf (persistCapForPage b env c s page r) q = None
       \<or> entryOf (persistCapForPage b env c s page r) q = entryOf s q"
  using livePageTimers_cases [of c s q]
  by (auto simp add: persistCapForPage_def updateBookProgress_def assignPageTimers_def Let_def entryOf_def
        livePageTimers_def split: option.splits)

lemma finalizePageTime_entry:
  "q \<noteq> page \<Longrightarrow> entryOf (fst (finalizePageTime b env c s page)) q = None
       \<or> entryOf (fst (finalizePageTime b env c s page)) q = entryOf s q"
  by (auto simp add: finalizePageTime_def updateBookProgress_def assignPageTimers_def Let_def entryOf_def
        livePageTimers_def split: option.splits)

lemma finalizePageTime_entry_page:
  "entryOf (fst (finalizePageTime b env s s' page)) page = None
   \<or> (progress s = None \<and> entryOf (fst (finalizePageTime b env s s' page)) page = entryOf s' page)
   \<or> (\<exists>t. entryOf (fst (finalizePageTime b env s s' page)) page = Some t
           \<and> totalTime t = get0 (timersByPage s) page)"
  by (auto simp add: finalizePageTime_def updateBookProgress_def assignPageTimers_def Let_def entryOf_def
        livePageTimers_def split: option.splits)

lemma finalizePageTime_returned:
  "q \<noteq> page \<Longrightarrow>
   (case snd (finalizePageTime b env c s page) of None \<Rightarrow> None | Some p \<Rightarrow> pageTimers p q) = None
   \<or> (case snd (finalizePageTime b env c s page) of None \<Rightarrow> None | Some p \<Rightarrow> pageTimers p q)
       = entryOf s q"
  by (auto simp add: finalizePageTime_def updateBookProgress_def assignPageTimers_def Let_def entryOf_def
        livePageTimers_def split: option.splits)

lemma startRecordingForPage_keeps [simp]:
  "timersByPage (startRecordingForPage b env c s p) = timersByPage s"
  "currentPage (startRecordingForPage b env c s p) = currentPage s"
  by (simp_all add: startRecordingForPage_def Let_def)

lemma startRecordingForPage_entry:
  "q \<noteq> p \<Longrightarrow> entryOf (startRecordingForPage b env c s p) q = None
       \<or> entryOf (startRecordingForPage b env c s p) q = entryOf s q"
proof -
  assume q: "q \<noteq> p"
  have a: "\<And>s' r. progress s' = progress s \<Longrightarrow>
        entryOf (persistCapForPage b env c s' p r) q = None
      \<or> entryOf (persistCapForPage b env c s' p r) q = entryOf s q"
    using persistCapForPage_entry [OF q] entryOf_cong by metis
  have b: "entryOf (fst (startRecording env s)) q = entryOf s q"
    by (rule entryOf_cong) simp
  have c: "\<And>m. entryOf (s\<lparr>cappedByPage := m\<rparr>) q = entryOf s q"
    "\<And>x m. entryOf (s\<lparr>recordingStopped := x, cappedByPage := m\<rparr>) q = entryOf s q"
    by (simp_all add: entryOf_def)
  show ?thesis
    unfolding startRecordingForPage_def Let_def
    using a b c by (simp split: if_splits)
qed

lemma startRecordingEffect_keeps [simp]:
  "timersByPage (startRecordingEffect b env s) = timersByPage s"
  "currentPage (startRecordingEffect b env s) = currentPage s"
  by (simp_all add: startRecordingEffect_def split: option.splits)

lemma startRecordingEffect_entry:
  "q \<noteq> currentPage s \<Longrightarrow> entryOf (startRecordingEffect b env s) q = None
       \<or> entryOf (startRecordingEffect b env s) q = entryOf s q"
  using startRecordingForPage_entry [of q "currentPage s" b env s s]
  by (simp add: startRecordingEffect_def split: option.splits)

lemma agrees_None [simp]: "agrees None v"
  by (simp add: agrees_def)

lemma orElse_agrees: "agrees e v \<Longrightarrow> orElse (map_option totalTime e) v = v"
  by (simp add: agrees_def orElse_def split: option.splits)

lemma switchToPage_facts:
  assumes inv: "checkpointed s" and new: "newPage \<noteq> currentPage s"
  shows "currentPage (switchToPage b env s s newPage) = newPage"
    and "get0 (timersByPage (switchToPage b env s s newPage)) p = get0 (timersByPage s) p"
    and "checkpointed (switchToPage b env s s newPage)"
proof -
  let ?s1 = "fst (stopCurrentRecording env s s)"
  let ?f = "finalizePageTime b env s ?s1 (currentPage s)"
  let ?pt = "case snd ?f of None \<Rightarrow> None | Some pr \<Rightarrow> pageTimers pr newPage"
  let ?saved = "orElse (map_option totalTime ?pt) (get0 (timersByPage s) newPage)"
  have e1: "\<And>q. entryOf ?s1 q = entryOf s q"
    by (rule entryOf_cong) simp
  have agree_new: "agrees (entryOf s newPage) (get0 (timersByPage s) newPage)"
    using inv new by (auto simp add: checkpointed_def)
  have "?pt = None \<or> ?pt = entryOf s newPage"
    using finalizePageTime_returned [OF new, of b env s ?s1] e1 by simp
  then have saved: "?saved = get0 (timersByPage s) newPage"
    using agree_new orElse_agrees by (auto simp add: orElse_def)
  obtain s3 where r: "switchToPage b env s s newPage = startRecordingForPage b env s s3 newPage"
    and cp3: "currentPage s3 = newPage"
    and t3: "timersByPage s3 = (timersByPage s)(newPage \<mapsto> ?saved)"
    and p3: "progress s3 = progress (fst ?f)"
    by (simp add: switchToPage_def Let_def split_beta)
  show cur: "currentPage (switchToPage b env s s newPage) = newPage"
    by (simp add: r cp3)
  have tm: "timersByPage (switchToPage b env s s newPage)
            = (timersByPage s)(newPage \<mapsto> get0 (timersByPage s) newPage)"
    by (simp add: r t3 saved)
  show same: "get0 (timersByPage (switchToPage b env s s newPage)) p = get0 (timersByPage s) p"
    for p by (simp add: tm get0_def)
  have entry: "entryOf (switchToPage b env s s newPage) q = None
       \<or> entryOf (switchToPage b env s s newPage) q = entryOf (fst ?f) q" if "q \<noteq> newPage" for q
    using startRecordingForPage_entry [OF that, of b env s s3] entryOf_cong [OF p3] by (simp add: r)
  have "agrees (entryOf (switchToPage b env s s newPage) q)
          (get0 (timersByPage (switchToPage b env s s newPage)) q)" if q: "q \<noteq> newPage" for q
  proof (cases "q = currentPage s")
    case True
    have "entryOf (fst ?f) q = None
        \<or> (\<exists>t. entryOf (fst ?f) q = Some t \<and> totalTime t = get0 (timersByPage s) q)"
      using finalizePageTime_entry_page [of b env s ?s1 "currentPage s"] e1 True
      by (auto simp add: entryOf_def)
    then show ?thesis
      using entry [OF q] by (auto simp add: same agrees_def)
  next
    case False
    have "entryOf (fst ?f) q = None \<or> entryOf (fst ?f) q = entryOf s q"
      using finalizePageTime_entry [OF False, of b env s ?s1] e1 by simp
    moreover have "agrees (entryOf s q) (get0 (timersByPage s) q)"
      using inv False by (auto simp add: checkpointed_def)
    ultimately show ?thesis
      using entry [OF q] by (auto simp add: same)
  qed
  then show "checkpointed (switchToPage b env s s newPage)"
    unfolding checkpointed_def using cur by auto
qed

lemma tick_keeps [simp]:
  "currentPage (tick b env c s) = currentPage s"
  "timersByPage (tick b env c s)
   = (timersByPage s)(currentPage c \<mapsto> get0 (timersByPage s) (currentPage c) + 1)"
  by (simp_all add: tick_def Let_def)

lemma tick_entry:
  "q \<noteq> currentPage c \<Longrightarrow> entryOf (tick b env c s) q = None \<or> entryOf (tick b env c s) q = entryOf s q"
proof -
  assume q: "q \<noteq> currentPage c"
  have a: "\<And>s' r. progress s' = progress s \<Longrightarrow>
        entryOf (persistCapForPage b env c s' (currentPage c) r) q = None
      \<or> entryOf (persistCapForPage b env c s' (currentPage c) r) q = entryOf s q"
    using persistCapForPage_entry [OF q] entryOf_cong by metis
  have b: "\<And>s'. progress s' = progress s \<Longrightarrow> entryOf s' q = entryOf s q"
    by (rule entryOf_cong)
  show ?thesis
    unfolding tick_def Let_def
    by (auto intro!: a b)
qed

lemma tick_facts:
  assumes "checkpointed s"
  shows "get0 (timersByPage s) p \<le> get0 (timersByPage (tick b env s s)) p"
    and "checkpointed (tick b env s s)"
proof -
  show "get0 (timersByPage s) p \<le> get0 (timersByPage (tick b env s s)) p"
    by (simp add: get0_def)
  have "agrees (entryOf (tick b env s s) q) (get0 (timersByPage (tick b env s s)) q)"
    if q: "q \<noteq> currentPage s" for q
  proof -
    have "agrees (entryOf s q) (get0 (timersByPage s) q)"
      using assms q by (auto simp add: checkpointed_def)
    then show ?thesis
      using tick_entry [OF q, of b env s] q by (auto simp add: get0_def)
  qed
  then show "checkpointed (tick b env s s)"
    unfolding checkpointed_def by auto
qed

lemma startRecordingEffect_facts:
  assumes "checkpointed s"
  shows "checkpointed (startRecordingEffect b env s)"
proof -
  have "agrees (entryOf (startRecordingEffect b env s) q) (get0 (timersByPage s) q)"
    if q: "q \<noteq> currentPage s" for q
  proof -
    have "agrees (entryOf s q) (get0 (timersByPage s) q)"
      using assms q by (auto simp add: checkpointed_def)
    then show ?thesis
      using startRecordingEffect_entry [OF q, of b env] by auto
  qed
  then show ?thesis
    unfolding checkpointed_def by auto
qed

lemma step_facts:
  assumes "checkpointed s"
  shows "get0 (timersByPage s) p \<le> get0 (timersByPage (step b e s)) p \<and> checkpointed (step b e s)"
proof (cases e)
  case (Pair env ev)
  show ?thesis
  proof (cases ev)
    case Tick
    then show ?thesis using Pair tick_facts [OF assms] by simp
  next
    case Next
    have "get0 (timersByPage s) p \<le> get0 (timersByPage (handleNextPage b env s)) p
          \<and> checkpointed (handleNextPage b env s)"
      using assms switchToPage_facts [OF assms, of "currentPage s + 1" b env]
      by (simp add: handleNextPage_def Let_def)
    then show ?thesis
      using Pair Next startRecordingEffect_facts by simp
  next
    case Previous
    have "get0 (timersByPage s) p \<le> get0 (timersByPage (handlePreviousPage b env s)) p
          \<and> checkpointed (handlePreviousPage b env s)"
      using assms switchToPage_facts [OF assms, of "currentPage s - 1" b env]
      by (simp add: handlePreviousPage_def)
    then show ?thesis
      using Pair Previous startRecordingEffect_facts by simp
  qed
qed

lemma run_facts:
  "checkpointed s \<Longrightarrow>
   get0 (timersByPage s) p \<le> get0 (timersByPage (run b es s)) p \<and> checkpointed (run b es s)"
proof (induction es arbitrary: s)
  case Nil
  then show ?case by (simp add: run_def)
next
  case (Cons e es)
  have a: "get0 (timersByPage s) p \<le> get0 (timersByPage (step b e s)) p" "checkpointed (step b e s)"
    using step_facts [OF Cons.prems] by simp_all
  have "get0 (timersByPage (step b e s)) p \<le> get0 (timersByPage (run b es (step b e s))) p
        \<and> checkpointed (run b es (step b e s))"
    using Cons.IH [OF a(2)] .
  then show ?case
    using a(1) by (simp add: run_def)
qed

lemma loadProgress_checkpointed:
  "checkpointed (loadProgress b (remount s))"
  by (auto simp add: checkpointed_def loadProgress_def remount_def initialReader_def Let_def
        entryOf_def agrees_def get0_def map_add_def split: option.splits)


lemma stopwatches_never_decrease:
  "get0 (timersByPage (loadProgress b (remount s))) p
   \<le> get0 (timersByPage (run b es (loadProgress b (remount s)))) p"
  using run_facts [OF loadProgress_checkpointed] by simp

text \<open>
  After a failed batch the capture is stopped (where the recorder can be stopped), so
  the batch of a second attempt is the segment map as it stands, which still holds
  every segment of the first batch.
\<close>

lemma uploadOrder_set:
  "x \<in> set (uploadOrder m ps) \<longleftrightarrow> fst x \<in> set ps \<and> snd x \<in> set (segmentsOf m (fst x))"
  by (cases x) (auto simp add: uploadOrder_def)

lemma segmentsOf_key:
  assumes that: "f \<in> set (segmentsOf m p)"
  shows "p \<in> set (map fst m)"
proof (cases "map_of m p")
  case None
  then show ?thesis
    using that by (simp add: segmentsOf_def)
next
  case (Some xs)
  then have "(p, xs) \<in> set m"
    by (rule map_of_SomeD)
  then show ?thesis
    by force
qed

lemma stopRecording_idle:
  "\<not> recording s \<Longrightarrow> snd (stopRecording env s) = None"
  by (cases "session s") (simp_all add: stopRecording_def recording_def)

lemma handleMandatoryUpload_session:
  "session (handleMandatoryUpload env c s) = session (fst (stopRecording env s))"
proof -
  have "session (fst (stopRecording env (setUploadProgress 0 (s\<lparr>isUploading := True\<rparr>))))
      = session (fst (stopRecording env s))"
    by (simp add: stopRecording_def split: option.splits)
  then show ?thesis
    by (simp add: handleMandatoryUpload_def Let_def split_beta)
qed

lemma retry_batch_contains:
  assumes fails: "\<not> list_all (uploadedOk env) (batchOf env s)"
    and stop: "stopUri env \<noteq> None"
    and x: "x \<in> set (batchOf env s)"
  shows "x \<in> set (batchOf env2 (handleMandatoryUpload env s s))"
proof -
  let ?s' = "handleMandatoryUpload env s s"
  let ?R = "recordingsByPage (fst (stopCurrentRecording env s s))"
  have "\<not> recording ?s'"
    using stopRecording_recording [OF stop, of s] recording_cong [OF handleMandatoryUpload_session]
    by simp
  then have idle: "snd (stopRecording env2 ?s') = None"
    by (rule stopRecording_idle)
  have q: "recordingsByPage ?s' = ?R"
    using fails unfolding batchOf_def by (rule handleMandatoryUpload_failed_queue)
  have b2: "batchOf env2 ?s' = uploadOrder ?R (sort (map fst ?R))"
    by (simp add: batchOf_def idle localMapOf_def q)
  have "snd x \<in> set (segmentsOf (localMapOf s (snd (stopRecording env s))) (fst x))"
    using x by (simp add: batchOf_def uploadOrder_set)
  then have m: "snd x \<in> set (segmentsOf ?R (fst x))"
    by (rule localMap_in_queue)
  then have "fst x \<in> set (map fst ?R)"
    by (rule segmentsOf_key)
  then show ?thesis
    using m by (simp add: b2 uploadOrder_set)
qed

text \<open>
  The completion dialog shares the defect of the submit: the book is marked completed
  after a failed upload.
\<close>

lemma complete_after_failed_upload:
  "remoteAudio (onCompleteBook secondUploadFails threeSegments) = [(1, ''a.mp4'')]
   \<and> map_option isCompleted (stored (onCompleteBook secondUploadFails threeSegments)) = Some True"
  by code_simp

section \<open>The claims\<close>

text \<open>
  C1. In an extensive book, when the stopwatch of the current page has reached 420
  seconds and the page has not been handled before (the calls to the recorder and of the
  reset succeeding): in a one-page book the session is reset at once, whatever the
  lifeline; in a two-page book, if no page has exceeded before and the lifeline is
  unused, the lifeline is consumed (\<^verbatim>\<open>lifelineUsed\<close> becomes true, the page is marked
  capped and exceeded, the capture is stopped) and reading goes on (same page, same
  stopwatches, no reset notice, uploaded audio kept); in a two-page book one of whose
  pages has exceeded before, the session is reset: stopwatches, recorded seconds, caps
  and exceeded pages emptied, \<^verbatim>\<open>lifelineUsed\<close> false, the notice shown, the uploaded
  audio deleted, the capture stopped.
\<close>

theorem extensive_overtime_policy:
  assumes "category b = Extensive"
    and "get0 (timersByPage s) (currentPage s) \<ge> 420"
    and "\<not> isTrue (exceededPages s) (currentPage s)"
    and "stopUri env \<noteq> None" and "deleteOk env" and "resetOk env"
  shows "(getTotalPages b s = 1
            \<longrightarrow> sessionCleared (overtimeEffect b env s)
                \<and> remoteAudio (overtimeEffect b env s) = []
                \<and> \<not> recording (overtimeEffect b env s))
       \<and> (getTotalPages b s = 2 \<and> \<not> isTrue (exceededPages s) 1 \<and> \<not> isTrue (exceededPages s) 2
            \<and> \<not> lifelineUsed s
            \<longrightarrow> lifelineUsed (overtimeEffect b env s)
                \<and> isTrue (cappedByPage (overtimeEffect b env s)) (currentPage s)
                \<and> isTrue (exceededPages (overtimeEffect b env s)) (currentPage s)
                \<and> \<not> recording (overtimeEffect b env s)
                \<and> currentPage (overtimeEffect b env s) = currentPage s
                \<and> timersByPage (overtimeEffect b env s) = timersByPage s
                \<and> remoteAudio (overtimeEffect b env s) = remoteAudio s
                \<and> timeLimitVisible (overtimeEffect b env s) = timeLimitVisible s)
       \<and> (getTotalPages b s = 2 \<and> (isTrue (exceededPages s) 1 \<or> isTrue (exceededPages s) 2)
            \<longrightarrow> sessionCleared (overtimeEffect b env s)
                \<and> remoteAudio (overtimeEffect b env s) = []
                \<and> \<not> recording (overtimeEffect b env s))"
proof (intro conjI impI)
  assume "getTotalPages b s = 1"
  then have "overtimeEffect b env s
       = handleExtensiveReset env (fst (stopCurrentRecording env s
            (s\<lparr>exceededPages := (exceededPages s)(currentPage s \<mapsto> True)\<rparr>)))"
    using assms by (intro overtimeEffect_one_page)
  then show "sessionCleared (overtimeEffect b env s)"
    "remoteAudio (overtimeEffect b env s) = []"
    "\<not> recording (overtimeEffect b env s)"
    using reset_after_stop [OF assms(5) assms(6) assms(4)] by simp_all
next
  assume a: "getTotalPages b s = 2 \<and> \<not> isTrue (exceededPages s) 1 \<and> \<not> isTrue (exceededPages s) 2
            \<and> \<not> lifelineUsed s"
  have "lifelineUsed (overtimeEffect b env s)
       \<and> isTrue (cappedByPage (overtimeEffect b env s)) (currentPage s)
       \<and> isTrue (exceededPages (overtimeEffect b env s)) (currentPage s)
       \<and> \<not> recording (overtimeEffect b env s)
       \<and> currentPage (overtimeEffect b env s) = currentPage s
       \<and> timersByPage (overtimeEffect b env s) = timersByPage s
       \<and> remoteAudio (overtimeEffect b env s) = remoteAudio s
       \<and> timeLimitVisible (overtimeEffect b env s) = timeLimitVisible s"
    using a assms by (intro overtimeEffect_lifeline) simp_all
  then show "lifelineUsed (overtimeEffect b env s)"
    "isTrue (cappedByPage (overtimeEffect b env s)) (currentPage s)"
    "isTrue (exceededPages (overtimeEffect b env s)) (currentPage s)"
    "\<not> recording (overtimeEffect b env s)"
    "currentPage (overtimeEffect b env s) = currentPage s"
    "timersByPage (overtimeEffect b env s) = timersByPage s"
    "remoteAudio (overtimeEffect b env s) = remoteAudio s"
    "timeLimitVisible (overtimeEffect b env s) = timeLimitVisible s"
    by simp_all
next
  assume a: "getTotalPages b s = 2 \<and> (isTrue (exceededPages s) 1 \<or> isTrue (exceededPages s) 2)"
  then have "overtimeEffect b env s
       = handleExtensiveReset env (fst (stopCurrentRecording env s
            (s\<lparr>exceededPages := (exceededPages s)(currentPage s \<mapsto> True)\<rparr>)))"
    using assms by (intro overtimeEffect_second_page) simp_all
  then show "sessionCleared (overtimeEffect b env s)"
    "remoteAudio (overtimeEffect b env s) = []"
    "\<not> recording (overtimeEffect b env s)"
    using reset_after_stop [OF assms(5) assms(6) assms(4)] by simp_all
qed

theorem extensive_overtime_policy_witness:
  "getTotalPages onePageBook onlyPageOver = 1
   \<and> get0 (timersByPage onlyPageOver) (currentPage onlyPageOver) = 420
   \<and> recording onlyPageOver
   \<and> sessionCleared (overtimeEffect onePageBook allSucceed onlyPageOver)
   \<and> remoteAudio (overtimeEffect onePageBook allSucceed onlyPageOver) = []
   \<and> \<not> recording (overtimeEffect onePageBook allSucceed onlyPageOver)
   \<and> getTotalPages book_ext_001 firstPageOver = 2
   \<and> currentPage firstPageOver = 1
   \<and> \<not> lifelineUsed firstPageOver
   \<and> recording firstPageOver
   \<and> lifelineUsed afterLifeline
   \<and> isTrue (cappedByPage afterLifeline) 1
   \<and> \<not> recording afterLifeline
   \<and> currentPage afterLifeline = 1
   \<and> timersByPage afterLifeline = timersByPage firstPageOver
   \<and> \<not> timeLimitVisible afterLifeline
   \<and> getTotalPages book_ext_001 secondPageOver = 2
   \<and> currentPage secondPageOver = 2
   \<and> lifelineUsed secondPageOver
   \<and> isTrue (exceededPages secondPageOver) 1
   \<and> remoteAudio secondPageOver = [(1, ''p1.mp4'')]
   \<and> sessionCleared (overtimeEffect book_ext_001 allSucceed secondPageOver)
   \<and> remoteAudio (overtimeEffect book_ext_001 allSucceed secondPageOver) = []
   \<and> \<not> recording (overtimeEffect book_ext_001 allSucceed secondPageOver)"
proof -
  have env: "stopUri allSucceed \<noteq> None" "deleteOk allSucceed" "resetOk allSucceed"
    by (simp_all add: allSucceed_def)
  have one: "category onePageBook = Extensive"
      "get0 (timersByPage onlyPageOver) (currentPage onlyPageOver) \<ge> 420"
      "\<not> isTrue (exceededPages onlyPageOver) (currentPage onlyPageOver)"
    by code_simp+
  have one': "getTotalPages onePageBook onlyPageOver = 1"
      "get0 (timersByPage onlyPageOver) (currentPage onlyPageOver) = 420"
      "recording onlyPageOver"
    by code_simp+
  have two: "category book_ext_001 = Extensive"
      "get0 (timersByPage firstPageOver) (currentPage firstPageOver) \<ge> 420"
      "\<not> isTrue (exceededPages firstPageOver) (currentPage firstPageOver)"
    by code_simp+
  have two': "getTotalPages book_ext_001 firstPageOver = 2"
      "currentPage firstPageOver = 1"
      "\<not> lifelineUsed firstPageOver"
      "recording firstPageOver"
      "\<not> isTrue (exceededPages firstPageOver) 1" "\<not> isTrue (exceededPages firstPageOver) 2"
      "\<not> timeLimitVisible firstPageOver"
    by code_simp+
  have three: "get0 (timersByPage secondPageOver) (currentPage secondPageOver) \<ge> 420"
      "\<not> isTrue (exceededPages secondPageOver) (currentPage secondPageOver)"
    by code_simp+
  have three': "getTotalPages book_ext_001 secondPageOver = 2"
      "currentPage secondPageOver = 2"
      "lifelineUsed secondPageOver"
      "isTrue (exceededPages secondPageOver) 1"
      "remoteAudio secondPageOver = [(1, ''p1.mp4'')]"
    by code_simp+
  note r1 = extensive_overtime_policy [OF one env]
  note r2 = extensive_overtime_policy [OF two env, folded afterLifeline_def]
  note r3 = extensive_overtime_policy [OF two(1) three env]
  show ?thesis
    using r1 r2 r3 one' two' three' by simp
qed

text \<open>
  C2. On an intensive page that is not capped, while the capture runs, a tick adds one
  to the recorded seconds as long as they stay below 600, and touches neither the cap
  nor the stored progress. The tick that brings them to 600 stops the capture, marks
  the page capped, and in the same step writes the page's entry with
  \<^verbatim>\<open>isCapped = true\<close> and 600 recorded seconds to the stored progress (the recorder
  and the store answering). On a capped page, without capture, or at 600 and beyond,
  a tick adds nothing to the recorded seconds.
\<close>

theorem intensive_tick_counts_and_caps:
  assumes "category b = Intensive"
  shows "(recording s \<and> \<not> isTrue (cappedByPage s) (currentPage s)
            \<and> get0 (recordedByPage s) (currentPage s) < 599
          \<longrightarrow> recordedByPage (tick b env s s) (currentPage s)
                 = Some (get0 (recordedByPage s) (currentPage s) + 1)
              \<and> recording (tick b env s s)
              \<and> \<not> isTrue (cappedByPage (tick b env s s)) (currentPage s)
              \<and> stored (tick b env s s) = stored s)
       \<and> (recording s \<and> \<not> isTrue (cappedByPage s) (currentPage s)
            \<and> get0 (recordedByPage s) (currentPage s) = 599
            \<and> stopUri env \<noteq> None \<and> storeOk env
          \<longrightarrow> recordedByPage (tick b env s s) (currentPage s) = Some 600
              \<and> \<not> recording (tick b env s s)
              \<and> isTrue (cappedByPage (tick b env s s)) (currentPage s)
              \<and> recordingStopped (tick b env s s)
              \<and> (\<exists>d t. stored (tick b env s s) = Some d
                        \<and> pageTimers d (currentPage s) = Some t
                        \<and> isCapped t = Some True
                        \<and> recordedTotalSeconds t = Some 600))
       \<and> (isTrue (cappedByPage s) (currentPage s) \<or> \<not> recording s
            \<or> get0 (recordedByPage s) (currentPage s) \<ge> 600
          \<longrightarrow> recordedByPage (tick b env s s) = recordedByPage s)"
proof (intro conjI impI)
  assume a: "recording s \<and> \<not> isTrue (cappedByPage s) (currentPage s)
            \<and> get0 (recordedByPage s) (currentPage s) < 599"
  then have t: "tick b env s s
       = s\<lparr>timersByPage := (timersByPage s)(currentPage s \<mapsto> get0 (timersByPage s) (currentPage s) + 1),
           pageTime := get0 (timersByPage s) (currentPage s) + 1,
           recordedByPage := (recordedByPage s)(currentPage s \<mapsto> get0 (recordedByPage s) (currentPage s) + 1)\<rparr>"
    using assms by (intro intensive_tick_below) simp_all
  show "recordedByPage (tick b env s s) (currentPage s)
                 = Some (get0 (recordedByPage s) (currentPage s) + 1)"
    "recording (tick b env s s)"
    "\<not> isTrue (cappedByPage (tick b env s s)) (currentPage s)"
    "stored (tick b env s s) = stored s"
    using a by (simp_all add: t recording_def)
next
  assume a: "recording s \<and> \<not> isTrue (cappedByPage s) (currentPage s)
            \<and> get0 (recordedByPage s) (currentPage s) = 599
            \<and> stopUri env \<noteq> None \<and> storeOk env"
  let ?s1 = "s\<lparr>timersByPage := (timersByPage s)(currentPage s \<mapsto> get0 (timersByPage s) (currentPage s) + 1),
                  pageTime := get0 (timersByPage s) (currentPage s) + 1,
                  recordedByPage := (recordedByPage s)(currentPage s \<mapsto> 600)\<rparr>"
  let ?s5 = "(fst (stopRecording env ?s1))
              \<lparr>cappedByPage := (cappedByPage s)(currentPage s \<mapsto> True), recordingStopped := True\<rparr>"
  have t: "tick b env s s = persistCapForPage b env s ?s5 (currentPage s) 600"
    using a assms by (intro intensive_tick_cap) simp_all
  have nr: "\<not> recording (fst (stopRecording env ?s1))"
    using a by (intro stopRecording_recording) simp
  show "recordedByPage (tick b env s s) (currentPage s) = Some 600"
    "isTrue (cappedByPage (tick b env s s)) (currentPage s)"
    "recordingStopped (tick b env s s)"
    by (simp_all add: t isTrue_def)
  have "session (tick b env s s) = session (fst (stopRecording env ?s1))"
    by (simp add: t)
  then show "\<not> recording (tick b env s s)"
    using nr recording_cong by blast
  have "storeOk env" using a by simp
  from persistCapForPage_stored [OF this, of b s ?s5 "currentPage s" 600]
  show "\<exists>d t. stored (tick b env s s) = Some d
                        \<and> pageTimers d (currentPage s) = Some t
                        \<and> isCapped t = Some True
                        \<and> recordedTotalSeconds t = Some 600"
    unfolding t by auto
next
  assume "isTrue (cappedByPage s) (currentPage s) \<or> \<not> recording s
            \<or> get0 (recordedByPage s) (currentPage s) \<ge> 600"
  then show "recordedByPage (tick b env s s) = recordedByPage s"
    using assms by (intro intensive_tick_no_count)
qed

theorem intensive_tick_counts_and_caps_witness:
  "recording tenSeconds
   \<and> get0 (recordedByPage tenSeconds) (currentPage tenSeconds) = 10
   \<and> recordedByPage (tick book_002 allSucceed tenSeconds tenSeconds) (currentPage tenSeconds) = Some 11
   \<and> recording (tick book_002 allSucceed tenSeconds tenSeconds)
   \<and> recording almostCapped
   \<and> get0 (recordedByPage almostCapped) (currentPage almostCapped) = 599
   \<and> recordedByPage (tick book_002 allSucceed almostCapped almostCapped) (currentPage almostCapped) = Some 600
   \<and> \<not> recording (tick book_002 allSucceed almostCapped almostCapped)
   \<and> isTrue (cappedByPage (tick book_002 allSucceed almostCapped almostCapped)) (currentPage almostCapped)
   \<and> (\<exists>d t. stored (tick book_002 allSucceed almostCapped almostCapped) = Some d
            \<and> pageTimers d (currentPage almostCapped) = Some t
            \<and> isCapped t = Some True
            \<and> recordedTotalSeconds t = Some 600)
   \<and> recordedByPage (tick book_002 allSucceed (tick book_002 allSucceed almostCapped almostCapped)
                         (tick book_002 allSucceed almostCapped almostCapped))
       = recordedByPage (tick book_002 allSucceed almostCapped almostCapped)"
proof -
  have c: "category book_002 = Intensive"
    by (simp add: book_002_def)
  have env: "stopUri allSucceed \<noteq> None" "storeOk allSucceed"
    by (simp_all add: allSucceed_def)
  have ten: "recording tenSeconds" "\<not> isTrue (cappedByPage tenSeconds) (currentPage tenSeconds)"
    "get0 (recordedByPage tenSeconds) (currentPage tenSeconds) = 10"
    by (simp_all add: tenSeconds_def openedReader_def initialReader_def recording_def isTrue_def get0_def)
  have alm: "recording almostCapped" "\<not> isTrue (cappedByPage almostCapped) (currentPage almostCapped)"
    "get0 (recordedByPage almostCapped) (currentPage almostCapped) = 599"
    by (simp_all add: almostCapped_def openedReader_def initialReader_def recording_def isTrue_def get0_def)
  have cp: "currentPage (tick book_002 allSucceed almostCapped almostCapped) = currentPage almostCapped"
    by code_simp
  note a = intensive_tick_counts_and_caps [OF c, of tenSeconds allSucceed]
  note b = intensive_tick_counts_and_caps [OF c, of almostCapped allSucceed]
  note d = intensive_tick_counts_and_caps [OF c, of "tick book_002 allSucceed almostCapped almostCapped" allSucceed]
  show ?thesis
    using a b d ten alm env cp by simp
qed

text \<open>
  C3. When its two calls succeed, the extensive reset leaves the screen with empty
  stopwatches, recorded seconds, caps and exceeded pages and with \<^verbatim>\<open>lifelineUsed\<close>
  false, the uploaded audio of the user and book deleted, and the stored progress with
  empty \<^verbatim>\<open>pageTimers\<close>, \<^verbatim>\<open>lifelineUsed\<close> false and \<^verbatim>\<open>currentPage\<close> 1; a screen
  that mounts on this stored progress is on page 1 with empty stopwatches and the
  lifeline unused. (The handler does not set the current page of the open screen; its
  notice closes the reader.)
\<close>

theorem full_reset:
  assumes "deleteOk env" and "resetOk env"
  shows "timersByPage (handleExtensiveReset env s) = Map.empty
       \<and> recordedByPage (handleExtensiveReset env s) = Map.empty
       \<and> cappedByPage (handleExtensiveReset env s) = Map.empty
       \<and> exceededPages (handleExtensiveReset env s) = Map.empty
       \<and> \<not> lifelineUsed (handleExtensiveReset env s)
       \<and> remoteAudio (handleExtensiveReset env s) = []
       \<and> stored (handleExtensiveReset env s) = map_option storedReset (stored s)
       \<and> (\<forall>d. stored s = Some d \<longrightarrow>
             pageTimers (storedReset d) = Map.empty
             \<and> bpLifelineUsed (storedReset d) = Some False
             \<and> bpCurrentPage (storedReset d) = 1
             \<and> currentPage (loadProgress b (remount (handleExtensiveReset env s))) = 1
             \<and> timersByPage (loadProgress b (remount (handleExtensiveReset env s))) = Map.empty
             \<and> \<not> lifelineUsed (loadProgress b (remount (handleExtensiveReset env s))))"
proof -
  have st: "stored (handleExtensiveReset env s) = map_option storedReset (stored s)"
    using assms by (simp add: handleExtensiveReset_ok)
  have "\<And>d. stored s = Some d \<Longrightarrow>
       currentPage (loadProgress b (remount (handleExtensiveReset env s))) = 1
     \<and> timersByPage (loadProgress b (remount (handleExtensiveReset env s))) = Map.empty
     \<and> \<not> lifelineUsed (loadProgress b (remount (handleExtensiveReset env s)))"
    using loadProgress_after_reset [of "handleExtensiveReset env s"] st by simp
  then show ?thesis
    using assms by (simp add: handleExtensiveReset_ok storedReset_def)
qed

theorem full_reset_witness:
  "stored bothPagesOver \<noteq> None
   \<and> currentPage bothPagesOver = 2
   \<and> timersByPage bothPagesOver 2 = Some 420
   \<and> lifelineUsed bothPagesOver
   \<and> remoteAudio bothPagesOver = [(1, ''p1.mp4'')]
   \<and> timersByPage (handleExtensiveReset allSucceed bothPagesOver) = Map.empty
   \<and> \<not> lifelineUsed (handleExtensiveReset allSucceed bothPagesOver)
   \<and> remoteAudio (handleExtensiveReset allSucceed bothPagesOver) = []
   \<and> currentPage (loadProgress book_ext_001 (remount (handleExtensiveReset allSucceed bothPagesOver))) = 1
   \<and> timersByPage (loadProgress book_ext_001 (remount (handleExtensiveReset allSucceed bothPagesOver))) = Map.empty
   \<and> \<not> lifelineUsed (loadProgress book_ext_001 (remount (handleExtensiveReset allSucceed bothPagesOver)))"
proof -
  have env: "deleteOk allSucceed" "resetOk allSucceed"
    by (simp_all add: allSucceed_def)
  obtain d where d: "stored bothPagesOver = Some d"
    by (simp add: bothPagesOver_def)
  have pre: "currentPage bothPagesOver = 2" "timersByPage bothPagesOver 2 = Some 420"
    "lifelineUsed bothPagesOver" "remoteAudio bothPagesOver = [(1, ''p1.mp4'')]"
    by (simp_all add: bothPagesOver_def)
  from full_reset [OF env, of bothPagesOver book_ext_001] d pre
  show ?thesis by simp
qed

text \<open>
  C4. When the screen loads a stored progress in which a page holds 600 recorded
  seconds and no \<^verbatim>\<open>isCapped\<close> flag, the page is marked capped; and in an intensive
  book (and in any book when the stored total time of the page is at least 420 seconds)
  \<^verbatim>\<open>startRecordingForPage\<close> on that page leaves the recorder as it was: no capture is
  started.
\<close>

theorem resume_rederives_cap:
  assumes "stored s = Some up" and "pageTimers up p = Some t"
    and "recordedTotalSeconds t = Some 600" and "isCapped t = None"
  shows "isTrue (cappedByPage (loadProgress b s)) p
       \<and> (category b = Intensive \<or> totalTime t \<ge> 420
            \<longrightarrow> session (startRecordingForPage b env (loadProgress b s) (loadProgress b s) p) = session s)"
proof -
  have "reachedCap t" using assms by (simp add: reachedCap_def)
  then have cap: "isTrue (cappedByPage (loadProgress b s)) p"
    using loadProgress_capped [OF assms(1,2)] by (simp add: isTrue_def)
  have pr: "progress (loadProgress b s) = Some up"
    using assms(1) by (rule loadProgress_progress)
  have "category b = Intensive \<or> totalTime t \<ge> 420
     \<Longrightarrow> session (startRecordingForPage b env (loadProgress b s) (loadProgress b s) p) = session s"
  proof (cases "category b")
    case Intensive
    then show ?thesis
      using startRecordingForPage_intensive_refuses [OF Intensive cap] loadProgress_frame(1) by simp
  next
    case Extensive
    assume "category b = Intensive \<or> totalTime t \<ge> 420"
    with Extensive have "totalTime t \<ge> 420" by simp
    then show ?thesis
      using startRecordingForPage_extensive_refuses [OF Extensive pr pr assms(2)] loadProgress_frame(1)
      by simp
  qed
  with cap show ?thesis by blast
qed

theorem resume_rederives_cap_witness:
  "isTrue (cappedByPage (loadProgress book_002 resumedOnPage3)) 3
   \<and> currentPage (loadProgress book_002 resumedOnPage3) = 3
   \<and> category book_002 = Intensive
   \<and> permission allSucceed \<and> startUri allSucceed \<noteq> None
   \<and> session (startRecordingForPage book_002 allSucceed (loadProgress book_002 resumedOnPage3)
                (loadProgress book_002 resumedOnPage3) 3) = None
   \<and> recording (startRecordingForPage book_002 allSucceed (loadProgress book_002 resumedOnPage3)
                (loadProgress book_002 resumedOnPage3) 2)"
proof -
  let ?t = "\<lparr>pageNumber = 3, totalTime = 650, exceedanceCount = 0,
                               timerCompleted = True, recordedTotalSeconds = Some 600,
                               isCapped = None\<rparr>"
  let ?up = "(startReadingWithBook book_002)\<lparr>bpCurrentPage := 3, pageTimers := [3 \<mapsto> ?t]\<rparr>"
  have h: "stored resumedOnPage3 = Some ?up" "pageTimers ?up 3 = Some ?t"
     "recordedTotalSeconds ?t = Some 600" "isCapped ?t = None"
    by (simp_all add: resumedOnPage3_def)
  have c: "category book_002 = Intensive" by (simp add: book_002_def)
  have s: "session resumedOnPage3 = None" by (simp add: resumedOnPage3_def initialReader_def)
  have e: "permission allSucceed" "startUri allSucceed \<noteq> None" by (simp_all add: allSucceed_def)
  have cp: "currentPage (loadProgress book_002 resumedOnPage3) = 3"
    "recording (startRecordingForPage book_002 allSucceed (loadProgress book_002 resumedOnPage3)
                (loadProgress book_002 resumedOnPage3) 2)"
    by code_simp+
  from resume_rederives_cap [OF h, of book_002 allSucceed]
  show ?thesis using c s e cp by simp
qed

text \<open>
  C5. Whatever the category of the book, \<^verbatim>\<open>handleNextPage\<close> refuses to move on while
  the stopwatch of the current page is below 120 seconds, and a refused call leaves the
  whole state as it was: the current page, every stopwatch, and everything else.
\<close>

theorem next_refused_below_120:
  "get0 (timersByPage s) (currentPage s) < 120 \<Longrightarrow> handleNextPage b env s = s"
  by (simp add: handleNextPage_def)

theorem next_refused_below_120_witness:
  "get0 (timersByPage ((openedReader book_ext_001 ''a.mp4'')\<lparr>timersByPage := [1 \<mapsto> 119]\<rparr>))
        (currentPage ((openedReader book_ext_001 ''a.mp4'')\<lparr>timersByPage := [1 \<mapsto> 119]\<rparr>)) = 119
   \<and> handleNextPage book_ext_001 allSucceed
        ((openedReader book_ext_001 ''a.mp4'')\<lparr>timersByPage := [1 \<mapsto> 119]\<rparr>)
      = (openedReader book_ext_001 ''a.mp4'')\<lparr>timersByPage := [1 \<mapsto> 119]\<rparr>"
proof -
  have small: "get0 (timersByPage ((openedReader book_ext_001 ''a.mp4'')\<lparr>timersByPage := [1 \<mapsto> 119]\<rparr>))
        (currentPage ((openedReader book_ext_001 ''a.mp4'')\<lparr>timersByPage := [1 \<mapsto> 119]\<rparr>)) = 119"
    by (simp add: openedReader_def initialReader_def get0_def)
  then have "get0 (timersByPage ((openedReader book_ext_001 ''a.mp4'')\<lparr>timersByPage := [1 \<mapsto> 119]\<rparr>))
        (currentPage ((openedReader book_ext_001 ''a.mp4'')\<lparr>timersByPage := [1 \<mapsto> 119]\<rparr>)) < 120"
    by simp
  from next_refused_below_120 [OF this] small show ?thesis by simp
qed

text \<open>
  C6, at the input where the code departs from it. (With every upload succeeding the
  order, the progress values and the flag are as claimed: lemma
  \<open>submit_in_progress_all_uploaded\<close>.) Submit in progress with two segments for page 1
  and one for page 2, the second upload failing: one segment is uploaded, and the stored
  progress is marked submitted all the same.
\<close>

theorem submit_marks_submitted_after_failed_upload:
  "batchOf secondUploadFails threeSegments = [(1, ''a.mp4''), (1, ''b.mp4''), (2, ''c.mp4'')]
   \<and> remoteAudio (handleSubmitInProgress book_002 secondUploadFails threeSegments) = [(1, ''a.mp4'')]
   \<and> map_option isSubmitted (stored (handleSubmitInProgress book_002 secondUploadFails threeSegments))
       = Some True"
  by code_simp

text \<open>
  C7, as the code has it. When an upload of a submit batch fails, the rest of the batch
  is not attempted (what has been uploaded is the part of the batch before the failing
  segment), the segment map is left as the stop of the capture left it, so that every
  segment of the batch is still queued, the uploaded ones included, and
  \<^verbatim>\<open>handleMandatoryUpload\<close> changes neither the stored progress nor the screen's copy
  of it. Where the recorder could be stopped, the batch of a second attempt contains
  every segment of the first, and uploads them in its order up to its own first failure.
\<close>

theorem failed_upload_keeps_queue:
  assumes "\<not> list_all (uploadedOk env) (batchOf env s)"
  shows "remoteAudio (handleMandatoryUpload env s s)
           = remoteAudio s @ takeWhile (uploadedOk env) (batchOf env s)
       \<and> recordingsByPage (handleMandatoryUpload env s s)
           = recordingsByPage (fst (stopCurrentRecording env s s))
       \<and> (\<forall>x \<in> set (batchOf env s).
             snd x \<in> set (segmentsOf (recordingsByPage (handleMandatoryUpload env s s)) (fst x)))
       \<and> stored (handleMandatoryUpload env s s) = stored s
       \<and> progress (handleMandatoryUpload env s s) = progress s
       \<and> \<not> isUploading (handleMandatoryUpload env s s)
       \<and> (stopUri env \<noteq> None \<longrightarrow>
            (\<forall>x \<in> set (batchOf env s). x \<in> set (batchOf env2 (handleMandatoryUpload env s s)))
            \<and> remoteAudio (handleMandatoryUpload env2 (handleMandatoryUpload env s s)
                              (handleMandatoryUpload env s s))
                = remoteAudio (handleMandatoryUpload env s s)
                  @ takeWhile (uploadedOk env2) (batchOf env2 (handleMandatoryUpload env s s)))"
proof -
  have q: "recordingsByPage (handleMandatoryUpload env s s)
           = recordingsByPage (fst (stopCurrentRecording env s s))"
    using assms unfolding batchOf_def by (rule handleMandatoryUpload_failed_queue)
  have "\<forall>x \<in> set (batchOf env s).
             snd x \<in> set (segmentsOf (recordingsByPage (fst (stopCurrentRecording env s s))) (fst x))"
    unfolding batchOf_def using uploadOrder_member localMap_in_queue by blast
  moreover have "stopUri env \<noteq> None \<longrightarrow>
            (\<forall>x \<in> set (batchOf env s). x \<in> set (batchOf env2 (handleMandatoryUpload env s s)))"
    using retry_batch_contains [OF assms] by blast
  moreover have "remoteAudio (handleMandatoryUpload env2 (handleMandatoryUpload env s s)
                              (handleMandatoryUpload env s s))
                = remoteAudio (handleMandatoryUpload env s s)
                  @ takeWhile (uploadedOk env2) (batchOf env2 (handleMandatoryUpload env s s))"
    by (simp add: handleMandatoryUpload_remote batchOf_def)
  ultimately show ?thesis
    using q by (simp add: handleMandatoryUpload_remote handleMandatoryUpload_frame batchOf_def)
qed

theorem failed_upload_keeps_queue_witness:
  "batchOf secondUploadFails threeSegments = [(1, ''a.mp4''), (1, ''b.mp4''), (2, ''c.mp4'')]
   \<and> \<not> uploadedOk secondUploadFails (1, ''b.mp4'')
   \<and> stopUri secondUploadFails \<noteq> None
   \<and> remoteAudio (handleMandatoryUpload secondUploadFails threeSegments threeSegments) = [(1, ''a.mp4'')]
   \<and> recordingsByPage (handleMandatoryUpload secondUploadFails threeSegments threeSegments)
       = [(1, [''a.mp4'', ''b.mp4'']), (2, [''c.mp4''])]
   \<and> stored (handleMandatoryUpload secondUploadFails threeSegments threeSegments) = stored threeSegments
   \<and> batchOf allSucceed (handleMandatoryUpload secondUploadFails threeSegments threeSegments)
       = [(1, ''a.mp4''), (1, ''b.mp4''), (2, ''c.mp4'')]
   \<and> remoteAudio (handleMandatoryUpload allSucceed
                     (handleMandatoryUpload secondUploadFails threeSegments threeSegments)
                     (handleMandatoryUpload secondUploadFails threeSegments threeSegments))
       = [(1, ''a.mp4''), (1, ''a.mp4''), (1, ''b.mp4''), (2, ''c.mp4'')]"
proof -
  have b: "batchOf secondUploadFails threeSegments = [(1, ''a.mp4''), (1, ''b.mp4''), (2, ''c.mp4'')]"
    by code_simp
  have ok: "uploadedOk secondUploadFails (1, ''a.mp4'')" "\<not> uploadedOk secondUploadFails (1, ''b.mp4'')"
    by code_simp+
  have h: "\<not> list_all (uploadedOk secondUploadFails) (batchOf secondUploadFails threeSegments)"
    unfolding b using ok by simp
  have r: "remoteAudio threeSegments = []" "stopUri secondUploadFails \<noteq> None"
    by code_simp+
  have q: "recordingsByPage (fst (stopCurrentRecording secondUploadFails threeSegments threeSegments))
       = [(1, [''a.mp4'', ''b.mp4'']), (2, [''c.mp4''])]"
    by code_simp
  have b2: "batchOf allSucceed (handleMandatoryUpload secondUploadFails threeSegments threeSegments)
       = [(1, ''a.mp4''), (1, ''b.mp4''), (2, ''c.mp4'')]"
    by code_simp
  have all: "uploadedOk allSucceed (1, ''a.mp4'')" "uploadedOk allSucceed (1, ''b.mp4'')"
      "uploadedOk allSucceed (2, ''c.mp4'')"
    by code_simp+
  from failed_upload_keeps_queue [OF h, of allSucceed]
  show ?thesis
    using b ok r q b2 all by simp
qed

theorem failed_upload_counterexample:
  "remoteAudio (handleMandatoryUpload secondUploadFails threeSegments threeSegments) = [(1, ''a.mp4'')]
   \<and> remoteAudio (handleMandatoryUpload allSucceed
        (handleMandatoryUpload secondUploadFails threeSegments threeSegments)
        (handleMandatoryUpload secondUploadFails threeSegments threeSegments))
      = [(1, ''a.mp4''), (1, ''a.mp4''), (1, ''b.mp4''), (2, ''c.mp4'')]"
  by code_simp

text \<open>
  C8, at the input where the code departs from it. (That no stopwatch decreases under
  ticks and page turns is lemma \<open>stopwatches_never_decrease\<close>.) Six hundred ticks on
  page 2 of the intensive book, entered with the capture running: the stopwatch and the
  recorded seconds on the screen both stand at 600, and the entry of page 2 written by
  the capping tick holds 600 recorded seconds against a total time of 599.
\<close>

theorem cap_tick_persists_stale_total:
  "timersByPage (ticks 600 book_002 allSucceed freshPage2) 2 = Some 600
   \<and> recordedByPage (ticks 600 book_002 allSucceed freshPage2) 2 = Some 600
   \<and> map_option (\<lambda>d. map_option totalTime (pageTimers d 2)) (stored (ticks 600 book_002 allSucceed freshPage2))
       = Some (Some 599)
   \<and> map_option (\<lambda>d. map_option recordedTotalSeconds (pageTimers d 2)) (stored (ticks 600 book_002 allSucceed freshPage2))
       = Some (Some (Some 600))"
proof -
  have "(600::nat) = Suc 599" by simp
  then have e: "ticks 600 book_002 allSucceed freshPage2
    = tick book_002 allSucceed (ticks 599 book_002 allSucceed freshPage2) (ticks 599 book_002 allSucceed freshPage2)"
    using ticks_end by metis
  show ?thesis
    unfolding e ticks_599_freshPage2 by code_simp
qed

text \<open>
  C9. A quiz completed with every question answered right awards the sticker of the
  book once. When \<^verbatim>\<open>completeQuiz\<close> has run for a user whose document exists and the
  award was written, a second run for the same user and book, whatever its answers and
  whether its writes succeed, leaves the user's stickers as they were; the sticker of
  the book then occurs once in the list if it did not occur before, and as often as
  before otherwise.
\<close>

theorem sticker_awarded_once:
  assumes perfect: "length (filter isCorrect log) \<ge> n"
    and user: "userStickers db uid = Some field"
  shows "userStickers (completeQuiz save2 award2 t2 uid b n2 log2
                         (completeQuiz save1 True t1 uid b n log db))
           = userStickers (completeQuiz save1 True t1 uid b n log db)
       \<and> countSticker (stickerId (stickerFor b))
           (stickersOfUser (completeQuiz save2 award2 t2 uid b n2 log2
                              (completeQuiz save1 True t1 uid b n log db)) uid)
           = max 1 (countSticker (stickerId (stickerFor b)) (stickersOfUser db uid))"
proof -
  let ?d1 = "completeQuiz save1 True t1 uid b n log db"
  have first: "userStickers ?d1 = userStickers (awardSticker True t1 uid (stickerFor b) db)"
    using perfect by (simp add: userStickers_completeQuiz)
  obtain field' y where found: "userStickers ?d1 uid = Some field'"
      "find (\<lambda>s. stickerId s = stickerId (stickerFor b)) (stickersArray field') = Some y"
    using award_then_found [OF user] first by metis
  have again: "awardSticker award2 t2 uid (stickerFor b) ?d1 = ?d1"
    by (rule award_present [OF found])
  have second: "userStickers (completeQuiz save2 award2 t2 uid b n2 log2 ?d1) = userStickers ?d1"
    by (simp add: userStickers_completeQuiz again)
  have "countSticker (stickerId (stickerFor b)) (stickersOfUser ?d1 uid)
        = max 1 (countSticker (stickerId (stickerFor b)) (stickersOfUser db uid))"
    using award_count [OF user] stickersOfUser_cong [OF first] by simp
  then show ?thesis
    using second stickersOfUser_cong [OF second] by simp
qed

theorem sticker_awarded_once_witness:
  "length (filter isCorrect perfectAnswers) \<ge> 3
   \<and> userStickers newUserDb ''u1'' = Some (Some [])
   \<and> stickersOfUser (completeQuiz True True 10 ''u1'' book_002 3 perfectAnswers newUserDb) ''u1''
       = [\<lparr>stickerId = ''sticker_book_002'', stickerName = ''A Mother in Mannville Award'',
           earnedAt = Some 10\<rparr>]
   \<and> userStickers (completeQuiz True True 20 ''u1'' book_002 3 perfectAnswers
                     (completeQuiz True True 10 ''u1'' book_002 3 perfectAnswers newUserDb))
       = userStickers (completeQuiz True True 10 ''u1'' book_002 3 perfectAnswers newUserDb)
   \<and> countSticker (stickerId (stickerFor book_002))
       (stickersOfUser (completeQuiz True True 20 ''u1'' book_002 3 perfectAnswers
                          (completeQuiz True True 10 ''u1'' book_002 3 perfectAnswers newUserDb)) ''u1'')
       = 1"
proof -
  have p: "length (filter isCorrect perfectAnswers) \<ge> 3"
    by (simp add: perfectAnswers_def)
  have u: "userStickers newUserDb ''u1'' = Some (Some [])"
    by (simp add: newUserDb_def)
  have first: "stickersOfUser (completeQuiz True True 10 ''u1'' book_002 3 perfectAnswers newUserDb) ''u1''
       = [\<lparr>stickerId = ''sticker_book_002'', stickerName = ''A Mother in Mannville Award'',
           earnedAt = Some 10\<rparr>]"
    by (simp add: completeQuiz_def saveQuizResult_def awardSticker_def stickersArray_def
          stickersOfUser_def perfectAnswers_def newUserDb_def book_002_def stickerFor_def Let_def)
  have zero: "countSticker (stickerId (stickerFor book_002)) (stickersOfUser newUserDb ''u1'') = 0"
    by (simp add: countSticker_def stickersOfUser_def newUserDb_def stickersArray_def)
  from sticker_awarded_once [OF p u, of True True 20 book_002 3 perfectAnswers True 10]
  show ?thesis using p u first zero by simp
qed

text \<open>
  C10, as the code has it. In an extensive book of three pages or more, a page that
  reaches 420 seconds sets off nothing at that moment: the overtime effect leaves the
  state as it is (no lifeline, no cap, no stop of the capture, no reset) and the tick
  only advances the stopwatch, so the capture in progress goes on. The page is not
  left alone for good, though: whenever the capture is to be started on a page whose
  stopwatch has reached 420 seconds (on coming back to it), no capture is started and
  the page is marked capped.
\<close>

theorem extensive_three_pages_no_action_until_reentry:
  assumes "category b = Extensive" and "getTotalPages b s \<ge> 3"
  shows "overtimeEffect b env s = s
       \<and> tick b env s s
           = s\<lparr>timersByPage := (timersByPage s)(currentPage s \<mapsto> get0 (timersByPage s) (currentPage s) + 1),
               pageTime := get0 (timersByPage s) (currentPage s) + 1\<rparr>
       \<and> (get0 (timersByPage s) p \<ge> 420
            \<longrightarrow> startRecordingForPage b env s s p = s\<lparr>cappedByPage := (cappedByPage s)(p \<mapsto> True)\<rparr>)"
  using assms
  by (simp add: overtimeEffect_three_pages tick_extensive startRecordingForPage_extensive_over)

theorem extensive_three_pages_no_action_until_reentry_witness:
  "category threePageBook = Extensive
   \<and> getTotalPages threePageBook sevenMinutesOnPage1 = 3
   \<and> get0 (timersByPage sevenMinutesOnPage1) 1 = 420
   \<and> overtimeEffect threePageBook allSucceed sevenMinutesOnPage1 = sevenMinutesOnPage1
   \<and> recording (tick threePageBook allSucceed sevenMinutesOnPage1 sevenMinutesOnPage1)
   \<and> timersByPage (tick threePageBook allSucceed sevenMinutesOnPage1 sevenMinutesOnPage1) 1 = Some 421
   \<and> \<not> isTrue (cappedByPage (tick threePageBook allSucceed sevenMinutesOnPage1 sevenMinutesOnPage1)) 1
   \<and> isTrue (cappedByPage (startRecordingForPage threePageBook allSucceed
                               sevenMinutesOnPage1 sevenMinutesOnPage1 1)) 1
   \<and> session (startRecordingForPage threePageBook allSucceed sevenMinutesOnPage1 sevenMinutesOnPage1 1)
       = session sevenMinutesOnPage1"
proof -
  have c: "category threePageBook = Extensive"
    by (simp add: threePageBook_def book_ext_001_def)
  have n: "getTotalPages threePageBook sevenMinutesOnPage1 = 3"
    by (simp add: threePageBook_def book_ext_001_def getTotalPages_def)
  have n3: "getTotalPages threePageBook sevenMinutesOnPage1 \<ge> 3"
    using n by simp
  have t: "get0 (timersByPage sevenMinutesOnPage1) 1 = 420"
    by (simp add: sevenMinutesOnPage1_def get0_def)
  have cp: "currentPage sevenMinutesOnPage1 = 1"
    by (simp add: sevenMinutesOnPage1_def openedReader_def initialReader_def)
  have r: "recording sevenMinutesOnPage1"
    by (simp add: sevenMinutesOnPage1_def openedReader_def initialReader_def recording_def)
  have k: "cappedByPage sevenMinutesOnPage1 = Map.empty"
    by (simp add: sevenMinutesOnPage1_def openedReader_def initialReader_def)
  from extensive_three_pages_no_action_until_reentry [OF c n3, of allSucceed 1]
  show ?thesis
    using c n t cp r k by (simp add: recording_def isTrue_def)
qed

theorem extensive_three_pages_counterexample:
  "category threePageBook = Extensive
   \<and> getTotalPages threePageBook backOnPage1 = 3
   \<and> currentPage backOnPage1 = 1
   \<and> timersByPage backOnPage1 1 = Some 420
   \<and> cappedByPage backOnPage1 1 = Some True
   \<and> \<not> recording backOnPage1
   \<and> \<not> lifelineUsed backOnPage1"
  by (simp add: backOnPage1_def sevenMinutesOnPage1_def run_defs)

end
